theory Spec2Isabelle
  imports Main "HOL-Library.Word"
begin

unbundle bit_operations_syntax

section \<open>DNS messages and the query context\<close>

text \<open>
  The stages work on \<^verbatim>\<open>dns.Msg\<close> values of the miekg/dns library and on the
  query context of \<^verbatim>\<open>pkg/query_context\<close>. Neither package is among the sources;
  only the fields and methods the stages touch are modelled.
\<close>

type_synonym byte = "8 word"
type_synonym uint16 = "16 word"
type_synonym uint32 = "32 word"
type_synonym uint64 = "64 word"

text \<open>\<^verbatim>\<open>dns.Question\<close>: name, type and class.\<close>

record Question =
  Name :: string
  Qtype :: uint16
  Qclass :: uint16

text \<open>\<^verbatim>\<open>dns.RR_Header\<close>, as \<^verbatim>\<open>Redirect.Exec\<close> fills it in.\<close>

record RR_Header =
  Hdr_Name :: string
  Rrtype :: uint16
  Class :: uint16
  Ttl :: uint32

text \<open>
  A resource record: the \<^verbatim>\<open>dns.CNAME\<close> record the redirect stage builds (header
  and target), or any other record (header and opaque data).
\<close>

datatype RR = CNAME RR_Header string | OtherRR RR_Header "byte list"

text \<open>\<^verbatim>\<open>dns.Msg\<close>: the transaction id, the question section, the answer section.\<close>

record Msg =
  MsgHdr_Id :: uint16
  Question :: "Question list"
  Answer :: "RR list"

definition TypeCNAME :: uint16 where
  "TypeCNAME = 5"

definition ClassINET :: uint16 where
  "ClassINET = 1"

text \<open>
  Modelled from the spec: the Query Context of \<^verbatim>\<open>pkg/query_context\<close>, which is not
  among the sources. The spec's data model: it "holds the request message (question
  name, type, class, id), the response message once set, a set of integer marks".
  \<^verbatim>\<open>Q()\<close> and \<^verbatim>\<open>R()\<close> read the first two, \<^verbatim>\<open>SetResponse\<close> sets the second,
  \<^verbatim>\<open>HasMark\<close> and \<^verbatim>\<open>SetMark\<close> test and extend the third.
\<close>

record Context =
  Q :: Msg
  R :: "Msg option"
  marks :: "uint32 set"

definition SetResponse :: "Msg option \<Rightarrow> Context \<Rightarrow> Context" where
  "SetResponse r qCtx = qCtx\<lparr>R := r\<rparr>"

definition HasMark :: "uint32 \<Rightarrow> Context \<Rightarrow> bool" where
  "HasMark u qCtx = (u \<in> marks qCtx)"

definition SetMark :: "uint32 \<Rightarrow> Context \<Rightarrow> Context" where
  "SetMark u qCtx = qCtx\<lparr>marks := insert u (marks qCtx)\<rparr>"

section \<open>The mark stage\<close>

text \<open>\<^verbatim>\<open>type mark struct { m []uint32 }\<close>\<close>

record mark =
  mark_m :: "uint32 list"

text \<open>
  \<^verbatim>\<open>mark.Match\<close>: the loop returns true at the first configured mark the context
  carries, false after the last one. The error result is always nil and is left out.
\<close>

fun Match_loop :: "uint32 list \<Rightarrow> Context \<Rightarrow> bool" where
  "Match_loop [] qCtx = False"
| "Match_loop (u # us) qCtx = (if HasMark u qCtx then True else Match_loop us qCtx)"

definition mark_Match :: "mark \<Rightarrow> Context \<Rightarrow> bool" where
  "mark_Match mk qCtx = Match_loop (mark_m mk) qCtx"

text \<open>
  \<^verbatim>\<open>mark.Exec\<close>: sets the configured marks one after the other; the error result is
  always nil, so the model returns the updated context only.
\<close>

fun Exec_loop :: "uint32 list \<Rightarrow> Context \<Rightarrow> Context" where
  "Exec_loop [] qCtx = qCtx"
| "Exec_loop (u # us) qCtx = Exec_loop us (SetMark u qCtx)"

definition mark_Exec :: "mark \<Rightarrow> Context \<Rightarrow> Context" where
  "mark_Exec mk qCtx = Exec_loop (mark_m mk) qCtx"

subsection \<open>The constructor \<^verbatim>\<open>newMarker\<close>\<close>

text \<open>
  \<^verbatim>\<open>strings.FieldsFunc(s, f)\<close> of the Go standard library: the maximal runs of
  characters that do not satisfy \<open>f\<close>. The loop keeps the field it is inside of
  (\<open>None\<close> between fields, the library's \<^verbatim>\<open>start = -1\<close>) and closes it at the
  next separator or at the end of the string. A Go string is a byte sequence and the
  library iterates over its runes; the only separator here is the ASCII space, which no
  multi-byte rune contains, so the loop over bytes finds the same fields.
\<close>

fun FieldsFunc_loop :: "(char \<Rightarrow> bool) \<Rightarrow> string option \<Rightarrow> string \<Rightarrow> string list" where
  "FieldsFunc_loop f None [] = []"
| "FieldsFunc_loop f (Some w) [] = [w]"
| "FieldsFunc_loop f None (r # rs) =
     (if f r then FieldsFunc_loop f None rs else FieldsFunc_loop f (Some [r]) rs)"
| "FieldsFunc_loop f (Some w) (r # rs) =
     (if f r then w # FieldsFunc_loop f None rs else FieldsFunc_loop f (Some (w @ [r])) rs)"

definition FieldsFunc :: "string \<Rightarrow> (char \<Rightarrow> bool) \<Rightarrow> string list" where
  "FieldsFunc s f = FieldsFunc_loop f None s"

text \<open>
  The errors of the stages. The first four are the \<^verbatim>\<open>strconv.NumError\<close> kinds of
  \<^verbatim>\<open>strconv.ParseUint\<close>; \<open>errors_New\<close> is an error made by \<^verbatim>\<open>errors.New\<close> with
  its message; \<open>ctx_Err\<close> is the error or cause of a cancelled \<^verbatim>\<open>context.Context\<close>;
  \<open>stage_error\<close> is an error returned by a collaborator (another stage, an upstream).
\<close>

datatype error =
    ErrSyntax | ErrRange | ErrBase | ErrBitSize
  | errors_New string
  | ctx_Err string
  | stage_error string

text \<open>
  \<^verbatim>\<open>strconv.ParseUint(s, base, bitSize)\<close> of the Go standard library, which
  \<^verbatim>\<open>newMarker\<close> calls with base 0 and 32 bits. The library is not part of the
  repository; the functions below follow its \<^verbatim>\<open>atoi.go\<close>: \<^verbatim>\<open>lower\<close>,
  \<^verbatim>\<open>underscoreOK\<close> and the digit loop of \<^verbatim>\<open>ParseUint\<close> over \<^verbatim>\<open>uint64\<close>.
\<close>

definition lower :: "byte \<Rightarrow> byte" where
  "lower c = c OR 0x20"

fun underscoreOK_loop :: "bool \<Rightarrow> char \<Rightarrow> string \<Rightarrow> bool" where
  "underscoreOK_loop hex saw [] = (saw \<noteq> CHR ''_'')"
| "underscoreOK_loop hex saw (c # cs) =
     (if (of_char CHR ''0'' \<le> (of_char c :: byte) \<and> (of_char c :: byte) \<le> of_char CHR ''9'') \<or>
         (hex \<and> of_char CHR ''a'' \<le> lower (of_char c) \<and> lower (of_char c) \<le> of_char CHR ''f'')
      then underscoreOK_loop hex CHR ''0'' cs
      else if c = CHR ''_'' then
        (if saw \<noteq> CHR ''0'' then False else underscoreOK_loop hex CHR ''_'' cs)
      else if saw = CHR ''_'' then False
      else underscoreOK_loop hex CHR ''!'' cs)"

definition underscoreOK :: "string \<Rightarrow> bool" where
  "underscoreOK s0 =
     (let s = (if 1 \<le> length s0 \<and> (hd s0 = CHR ''-'' \<or> hd s0 = CHR ''+'') then tl s0 else s0)
      in if 2 \<le> length s \<and> s ! 0 = CHR ''0'' \<and>
            (lower (of_char (s ! 1)) = of_char CHR ''b'' \<or>
             lower (of_char (s ! 1)) = of_char CHR ''o'' \<or>
             lower (of_char (s ! 1)) = of_char CHR ''x'')
         then underscoreOK_loop (lower (of_char (s ! 1)) = of_char CHR ''x'') CHR ''0'' (drop 2 s)
         else underscoreOK_loop False CHR ''^'' s)"

fun ParseUint_loop ::
  "bool \<Rightarrow> int \<Rightarrow> uint64 \<Rightarrow> uint64 \<Rightarrow> bool \<Rightarrow> uint64 \<Rightarrow> string \<Rightarrow> error + (bool \<times> uint64)" where
  "ParseUint_loop base0 base cutoff maxVal underscores n [] = Inr (underscores, n)"
| "ParseUint_loop base0 base cutoff maxVal underscores n (c # cs) =
     (if c = CHR ''_'' \<and> base0 then ParseUint_loop base0 base cutoff maxVal True n cs
      else if \<not> ((of_char CHR ''0'' \<le> (of_char c :: byte) \<and> (of_char c :: byte) \<le> of_char CHR ''9'') \<or>
                  (of_char CHR ''a'' \<le> lower (of_char c) \<and> lower (of_char c) \<le> of_char CHR ''z''))
      then Inl ErrSyntax
      else
        let d = (if of_char CHR ''0'' \<le> (of_char c :: byte) \<and> (of_char c :: byte) \<le> of_char CHR ''9''
                 then of_char c - of_char CHR ''0''
                 else lower (of_char c) - of_char CHR ''a'' + 10)
        in if (word_of_int base :: byte) \<le> d then Inl ErrSyntax
           else if cutoff \<le> n then Inl ErrRange
           else
             let n' = n * word_of_int base; n1 = n' + ucast d
             in if n1 < n' \<or> maxVal < n1 then Inl ErrRange
                else ParseUint_loop base0 base cutoff maxVal underscores n1 cs)"

definition base_prefix :: "string \<Rightarrow> int \<times> string" where
  "base_prefix s =
     (if s ! 0 = CHR ''0'' then
        (if 3 \<le> length s \<and> lower (of_char (s ! 1)) = of_char CHR ''b'' then (2, drop 2 s)
         else if 3 \<le> length s \<and> lower (of_char (s ! 1)) = of_char CHR ''o'' then (8, drop 2 s)
         else if 3 \<le> length s \<and> lower (of_char (s ! 1)) = of_char CHR ''x'' then (16, drop 2 s)
         else (8, drop 1 s))
      else (10, s))"

definition ParseUint :: "string \<Rightarrow> int \<Rightarrow> int \<Rightarrow> error + uint64" where
  "ParseUint s0 base bitSize =
     (if s0 = [] then Inl ErrSyntax
      else if \<not> (2 \<le> base \<and> base \<le> 36) \<and> base \<noteq> 0 then Inl ErrBase
      else
        let base0 = (base = 0);
            (base', s) = (if 2 \<le> base \<and> base \<le> 36 then (base, s0) else base_prefix s0)
        in if bitSize \<noteq> 0 \<and> (bitSize < 0 \<or> 64 < bitSize) then Inl ErrBitSize
           else
             let bits = (if bitSize = 0 then 64 else bitSize);
                 cutoff = (- 1) div word_of_int base' + 1;
                 maxVal = push_bit (nat bits) 1 - 1
             in case ParseUint_loop base0 base' cutoff maxVal False 0 s of
                  Inl err \<Rightarrow> Inl err
                | Inr (underscores, n) \<Rightarrow>
                    if underscores \<and> \<not> underscoreOK s0 then Inl ErrSyntax else Inr n)"

text \<open>
  \<^verbatim>\<open>newMarker\<close>: the mark taken from the pool is reset to the empty slice, the
  string is split at spaces (\<^verbatim>\<open>r == ' '\<close>), and each field is parsed in turn; the
  first field that fails ends the loop with its error.
\<close>

fun newMarker_loop :: "string list \<Rightarrow> uint32 list \<Rightarrow> error + uint32 list" where
  "newMarker_loop [] m = Inr m"
| "newMarker_loop (ms # fs) m =
     (case ParseUint ms 0 32 of
        Inl err \<Rightarrow> Inl err
      | Inr n \<Rightarrow> newMarker_loop fs (m @ [ucast n]))"

definition newMarker :: "string \<Rightarrow> error + mark" where
  "newMarker s =
     (case newMarker_loop (FieldsFunc s (\<lambda>r. r = CHR '' '')) [] of
        Inl err \<Rightarrow> Inl err
      | Inr m \<Rightarrow> Inr \<lparr>mark_m = m\<rparr>)"

text \<open>
  The configuration strings the mark stage is documented for: tokens separated by runs
  of spaces. \<open>join_spaces lead tks\<close> is \<open>lead\<close> spaces followed by each token \<open>t\<close>
  of \<open>tks\<close> with \<open>k\<close> spaces after it.
\<close>

definition join_spaces :: "nat \<Rightarrow> (string \<times> nat) list \<Rightarrow> string" where
  "join_spaces lead tks =
     replicate lead CHR '' '' @ concat (map (\<lambda>(t, k). t @ replicate k CHR '' '') tks)"

section \<open>The cache stage\<close>

subsection \<open>The cache key\<close>

text \<open>
  \<^verbatim>\<open>binary.BigEndian.PutUint64(b, v)\<close> writes the eight bytes of \<open>v\<close> into
  \<open>b[0..7]\<close>, most significant first.
\<close>

definition PutUint64 :: "byte list \<Rightarrow> uint64 \<Rightarrow> byte list" where
  "PutUint64 b v =
     b[0 := ucast (drop_bit 56 v), 1 := ucast (drop_bit 48 v), 2 := ucast (drop_bit 40 v),
       3 := ucast (drop_bit 32 v), 4 := ucast (drop_bit 24 v), 5 := ucast (drop_bit 16 v),
       6 := ucast (drop_bit 8 v), 7 := ucast v]"

text \<open>
  Go's built-in \<^verbatim>\<open>copy(dst, src)\<close>: the first \<open>min (len dst) (len src)\<close> bytes of
  \<open>dst\<close> are overwritten.
\<close>

definition copy :: "byte list \<Rightarrow> byte list \<Rightarrow> byte list" where
  "copy dst src = take (length dst) src @ drop (length src) dst"

text \<open>
  \<^verbatim>\<open>getMsgKey\<close>. The source file ends inside this function, in the second argument
  of \<^verbatim>\<open>copy(key[8:], q...\<close>; that argument, some bytes read from the message, is the
  parameter \<open>src\<close>. The model is the key buffer after the statements the file holds:
  sixteen zero bytes, the transaction id written big-endian into \<open>key[:8]\<close>, and the
  bytes of \<open>src\<close> copied into \<open>key[8:]\<close>.
\<close>

definition getMsgKey :: "(Msg \<Rightarrow> byte list) \<Rightarrow> Msg \<Rightarrow> byte list" where
  "getMsgKey src q =
     (let key = replicate 16 0;
          key = PutUint64 (take 8 key) (ucast (MsgHdr_Id q)) @ drop 8 key;
          key = take 8 key @ copy (drop 8 key) (src q)
      in key)"

subsection \<open>The cache table and \<^verbatim>\<open>Cache.Exec\<close>\<close>

text \<open>\<^verbatim>\<open>type item struct { resp *dns.Msg; ttl time.Duration }\<close> and its method.\<close>

record item =
  resp :: Msg
  ttl :: int

definition Expired :: "item \<Rightarrow> int \<Rightarrow> bool" where
  "Expired i t = (ttl i < t)"

text \<open>
  The cache: the configured \<^verbatim>\<open>LazyCacheTTL\<close>, the backend table (a map from keys to
  items; \<^verbatim>\<open>pkg/cache\<close> is not among the sources), the three counters and the count
  of updated keys. \<open>lazy_updates\<close> is not a field of the Go struct: it lists the
  background refreshes \<^verbatim>\<open>doLazyUpdate\<close> has launched, each with its key and its copy
  of the query context.
\<close>

record Cache =
  LazyCacheTTL :: int
  backend :: "string \<rightharpoonup> item"
  queryTotal :: nat
  hitTotal :: nat
  lazyHitTotal :: nat
  updatedKey :: uint64
  lazy_updates :: "(string \<times> Context) list"

definition expiredMsgTtl :: int where
  "expiredMsgTtl = 5"

text \<open>
  What \<^verbatim>\<open>Cache.Exec\<close> calls and the sources do not hold: \<open>msgKeyOf\<close> is
  \<^verbatim>\<open>getMsgKey\<close> as a whole (its source is cut off, see above), as a string that is
  empty when the query has no key; \<open>fresh\<close> says that an entry is not expired and
  \<open>in_lazy_window\<close> that an expired entry is still within the lazy window;
  \<open>saveRespToCache\<close> stores a response in the backend.
\<close>

record cache_env =
  msgKeyOf :: "Msg \<Rightarrow> string"
  fresh :: "item \<Rightarrow> bool"
  in_lazy_window :: "item \<Rightarrow> bool"
  saveRespToCache :: "string \<Rightarrow> Msg \<Rightarrow> (string \<rightharpoonup> item) \<Rightarrow> int \<Rightarrow> (string \<rightharpoonup> item)"

text \<open>
  Modelled from the spec: \<^verbatim>\<open>getRespFromCache\<close>, whose source lies behind the point
  where the file is cut off. The spec: "If a non-expired entry exists, serve it
  immediately"; "If the entry exists but is within a configured lazy window past expiry,
  serve the stale answer AND asynchronously trigger a refresh"; "If no usable entry
  exists, delegate to next". The result is the response to serve, if any, and whether
  it is a lazy hit.
\<close>

definition getRespFromCache ::
  "cache_env \<Rightarrow> string \<Rightarrow> (string \<rightharpoonup> item) \<Rightarrow> bool \<Rightarrow> int \<Rightarrow> Msg option \<times> bool" where
  "getRespFromCache env msgKey b lazyCacheEnabled lazyTtl =
     (case b msgKey of
        None \<Rightarrow> (None, False)
      | Some v \<Rightarrow>
          if fresh env v then (Some (resp v), False)
          else if lazyCacheEnabled \<and> in_lazy_window env v then (Some (resp v), True)
          else (None, False))"

text \<open>
  \<^verbatim>\<open>doLazyUpdate\<close> copies the context and starts a goroutine that runs the refresh
  through a \<^verbatim>\<open>singleflight.Group\<close>; the model records the launch only.
\<close>

definition doLazyUpdate :: "string \<Rightarrow> Context \<Rightarrow> Cache \<Rightarrow> Cache" where
  "doLazyUpdate msgKey qCtx c = c\<lparr>lazy_updates := lazy_updates c @ [(msgKey, qCtx)]\<rparr>"

text \<open>
  \<^verbatim>\<open>Cache.Exec\<close>. \<open>next\<close> is the rest of the chain: it returns its error and the
  context as it leaves it. The comparison \<^verbatim>\<open>cachedResp != r\<close> of the last step is a
  comparison of pointers, which the values of the model do not show: \<open>replaced\<close> says
  whether the response the context holds after \<open>next\<close> is another object than
  \<open>cachedResp\<close>.
\<close>

definition Cache_Exec ::
  "cache_env \<Rightarrow> Cache \<Rightarrow> Context \<Rightarrow> (Context \<Rightarrow> error option \<times> Context) \<Rightarrow> bool \<Rightarrow>
   error option \<times> Cache \<times> Context" where
  "Cache_Exec env c0 qCtx0 next replaced =
     (let c = c0\<lparr>queryTotal := queryTotal c0 + 1\<rparr>;
          q = Q qCtx0;
          msgKey = msgKeyOf env q
      in if length msgKey = 0 then (let (err, qCtx) = next qCtx0 in (err, c, qCtx))
         else
           let (cachedResp, lazyHit) =
                 getRespFromCache env msgKey (backend c) (0 < LazyCacheTTL c) expiredMsgTtl;
               c = (if lazyHit
                    then doLazyUpdate msgKey qCtx0 (c\<lparr>lazyHitTotal := lazyHitTotal c + 1\<rparr>)
                    else c);
               cachedResp = map_option (\<lambda>m. m\<lparr>MsgHdr_Id := MsgHdr_Id q\<rparr>) cachedResp;
               (c, qCtx) = (if cachedResp \<noteq> None
                            then (c\<lparr>hitTotal := hitTotal c + 1\<rparr>, SetResponse cachedResp qCtx0)
                            else (c, qCtx0));
               (err, qCtx) = next qCtx;
               c = (case R qCtx of
                      None \<Rightarrow> c
                    | Some r \<Rightarrow>
                        if cachedResp = None \<or> replaced
                        then c\<lparr>backend := saveRespToCache env msgKey r (backend c) (LazyCacheTTL c),
                               updatedKey := updatedKey c + 1\<rparr>
                        else c)
           in (err, c, qCtx))"

subsection \<open>The refresh tasks of \<^verbatim>\<open>doLazyUpdate\<close>\<close>

text \<open>
  \<^verbatim>\<open>doLazyUpdate\<close> keeps one \<^verbatim>\<open>singleflight.Group\<close> per key in the
  \<^verbatim>\<open>sync.Map\<close> \<^verbatim>\<open>lazyUpdateMap\<close> and starts a goroutine that runs the refresh
  through \<^verbatim>\<open>sf.Do\<close>. Both types belong to libraries that are not part of the
  repository; the model follows their documented behaviour. A group is a mutex and a
  map of the calls in flight, created on first use; a Go map is a reference, so a copy
  of a group shares the map of the original if the original has one, and has a nil map
  of its own if not.

  The state: the table from keys to the addresses of groups; for every group its field
  \<^verbatim>\<open>m\<close> (the address of its map, \<open>None\<close> for nil); for every map its keys; the next
  free address; the goroutines launched so far, each with the address of the group
  \<^verbatim>\<open>sf\<close> it uses and its key; the goroutines whose \<^verbatim>\<open>lazyUpdateFunc\<close> is running;
  and those that wait in \<^verbatim>\<open>sf.Do\<close> for a call in flight.
\<close>

record refresh_state =
  lazyUpdateMap :: "string \<rightharpoonup> nat"
  group_m :: "nat \<Rightarrow> nat option"
  map_keys :: "nat \<Rightarrow> string set"
  fresh_addr :: nat
  goroutines :: "(nat \<times> string) list"
  in_flight :: "nat list"
  waiting :: "nat list"

definition NewCache_refresh :: refresh_state where
  "NewCache_refresh =
     \<lparr>lazyUpdateMap = Map.empty, group_m = (\<lambda>a. None), map_keys = (\<lambda>a. {}), fresh_addr = 0,
      goroutines = [], in_flight = [], waiting = []\<rparr>"

text \<open>\<^verbatim>\<open>sync.Map.LoadOrStore\<close>: the value the key has, or else the given one, stored.\<close>

definition LoadOrStore :: "string \<Rightarrow> nat \<Rightarrow> refresh_state \<Rightarrow> nat \<times> refresh_state" where
  "LoadOrStore k p st =
     (case lazyUpdateMap st k of
        Some actual \<Rightarrow> (actual, st)
      | None \<Rightarrow> (p, st\<lparr>lazyUpdateMap := (lazyUpdateMap st)(k \<mapsto> p)\<rparr>))"

text \<open>
  The statements of \<^verbatim>\<open>doLazyUpdate\<close> that the calling goroutine runs:
  \<^verbatim>\<open>var sf singleflight.Group\<close> makes a new group with a nil map;
  \<^verbatim>\<open>LoadOrStore(msgKey, &sf)\<close> registers its address unless the key has one;
  \<^verbatim>\<open>sf = *sfPtr\<close> copies the registered group into \<^verbatim>\<open>sf\<close>; and the
  \<^verbatim>\<open>go\<close> statement launches the goroutine that will call
  \<^verbatim>\<open>sf.Do(msgKey, lazyUpdateFunc)\<close> on \<^verbatim>\<open>sf\<close>.
\<close>

definition doLazyUpdate_launch :: "string \<Rightarrow> refresh_state \<Rightarrow> refresh_state" where
  "doLazyUpdate_launch msgKey st0 =
     (let sf = fresh_addr st0;
          st = st0\<lparr>fresh_addr := sf + 1, group_m := (group_m st0)(sf := None)\<rparr>;
          (sfPtr, st) = LoadOrStore msgKey sf st;
          st = st\<lparr>group_m := (group_m st)(sf := group_m st sfPtr)\<rparr>
      in st\<lparr>goroutines := goroutines st @ [(sf, msgKey)]\<rparr>)"

text \<open>
  The launched goroutine \<open>i\<close> enters \<^verbatim>\<open>sf.Do\<close>: under the group's mutex the map is
  created if it is nil; if the map has a call for the key the goroutine waits for that
  call; if not it registers a call and runs \<^verbatim>\<open>lazyUpdateFunc\<close>.
\<close>

definition Do_begin :: "nat \<Rightarrow> refresh_state \<Rightarrow> refresh_state" where
  "Do_begin i st0 =
     (if \<not> i < length (goroutines st0) \<or> i \<in> set (in_flight st0) \<or> i \<in> set (waiting st0) then st0
      else
        let (g, key) = goroutines st0 ! i;
            (a, st) =
              (case group_m st0 g of
                 Some a \<Rightarrow> (a, st0)
               | None \<Rightarrow>
                   (let a = fresh_addr st0
                    in (a, st0\<lparr>fresh_addr := a + 1, group_m := (group_m st0)(g := Some a),
                               map_keys := (map_keys st0)(a := {})\<rparr>)))
        in if key \<in> map_keys st a then st\<lparr>waiting := waiting st @ [i]\<rparr>
           else st\<lparr>map_keys := (map_keys st)(a := insert key (map_keys st a)),
                    in_flight := in_flight st @ [i]\<rparr>)"

text \<open>
  \<^verbatim>\<open>lazyUpdateFunc\<close> of goroutine \<open>i\<close> returns: its deferred
  \<^verbatim>\<open>sf.Forget(msgKey)\<close> and the end of \<^verbatim>\<open>Do\<close> remove the key from the group's
  map, and the goroutines that waited for this call go on.
\<close>

definition Do_end :: "nat \<Rightarrow> refresh_state \<Rightarrow> refresh_state" where
  "Do_end i st =
     (if i \<notin> set (in_flight st) then st
      else
        let (g, key) = goroutines st ! i
        in case group_m st g of
             None \<Rightarrow> st
           | Some a \<Rightarrow>
               st\<lparr>map_keys := (map_keys st)(a := map_keys st a - {key}),
                  in_flight := removeAll i (in_flight st),
                  waiting := filter (\<lambda>j. \<not> (snd (goroutines st ! j) = key \<and>
                                              group_m st (fst (goroutines st ! j)) = Some a))
                               (waiting st)\<rparr>)"

text \<open>
  What can happen next: a request with a lazy hit calls \<^verbatim>\<open>doLazyUpdate\<close>, the
  scheduler runs a launched goroutine into \<^verbatim>\<open>sf.Do\<close>, or a refresh returns.
\<close>

datatype refresh_event = Lazy_hit string | Begin nat | End nat

fun refresh_step :: "refresh_state \<Rightarrow> refresh_event \<Rightarrow> refresh_state" where
  "refresh_step st (Lazy_hit msgKey) = doLazyUpdate_launch msgKey st"
| "refresh_step st (Begin i) = Do_begin i st"
| "refresh_step st (End i) = Do_end i st"

text \<open>The number of refreshes for a key that are running.\<close>

definition refreshes_in_flight :: "string \<Rightarrow> refresh_state \<Rightarrow> nat" where
  "refreshes_in_flight msgKey st =
     length (filter (\<lambda>i. snd (goroutines st ! i) = msgKey) (in_flight st))"

section \<open>The forward stage\<close>

record UpstreamConfig =
  Tag :: string
  Addr :: string
  DialAddr :: string
  IdleTimeout :: int
  MaxConns :: int
  EnablePipeline :: bool
  EnableHTTP3 :: bool
  InsecureSkipVerify :: bool
  Socks5 :: string
  SoMark :: int
  BindToDevice :: string
  Bootstrap :: string
  BootstrapVer :: int

text \<open>
  \<^verbatim>\<open>type Forward struct\<close>: the configured upstreams (\<^verbatim>\<open>args.Upstreams\<close>) and the
  table of handles by address. A handle (\<^verbatim>\<open>*upstream.Upstream\<close>, of a package that
  is not among the sources) is a value of the type \<open>'u\<close>. \<open>dialed\<close> is not a field
  of the Go struct: it lists, latest first, the handles \<^verbatim>\<open>upstream.NewUpstream\<close> has
  returned to \<^verbatim>\<open>getUpstream\<close>, each with the address it was made for. The mutex
  \<^verbatim>\<open>mu\<close> is held for the whole of \<^verbatim>\<open>getUpstream\<close>, so calls do not overlap and
  each is one step on this state.
\<close>

record 'u Forward =
  Upstreams :: "UpstreamConfig list"
  upstreamCache :: "string \<rightharpoonup> 'u"
  dialed :: "(string \<times> 'u) list"

definition NewForward :: "UpstreamConfig list \<Rightarrow> 'u Forward" where
  "NewForward ups = \<lparr>Upstreams = ups, upstreamCache = Map.empty, dialed = []\<rparr>"

text \<open>
  \<^verbatim>\<open>Forward.getUpstream\<close>. \<open>NewUpstream\<close> is \<^verbatim>\<open>upstream.NewUpstream\<close> as it
  would answer at this call, given the address and the configuration the options are
  built from.
\<close>

definition getUpstream ::
  "(string \<Rightarrow> UpstreamConfig \<Rightarrow> error + 'u) \<Rightarrow> 'u Forward \<Rightarrow> UpstreamConfig \<Rightarrow>
   (error + 'u) \<times> 'u Forward" where
  "getUpstream NewUpstream f us =
     (case upstreamCache f (Addr us) of
        Some up \<Rightarrow> (Inr up, f)
      | None \<Rightarrow>
          (case NewUpstream (Addr us) us of
             Inl err \<Rightarrow> (Inl err, f)
           | Inr up \<Rightarrow>
               (Inr up, f\<lparr>upstreamCache := (upstreamCache f)(Addr us \<mapsto> up),
                          dialed := (Addr us, up) # dialed f\<rparr>)))"

text \<open>A sequence of calls of \<^verbatim>\<open>getUpstream\<close>, in the order the mutex admits them.\<close>

fun getUpstream_calls ::
  "'u Forward \<Rightarrow> ((string \<Rightarrow> UpstreamConfig \<Rightarrow> error + 'u) \<times> UpstreamConfig) list \<Rightarrow>
   (error + 'u) list \<times> 'u Forward" where
  "getUpstream_calls f [] = ([], f)"
| "getUpstream_calls f ((NewUpstream, us) # calls) =
     (let (r, f1) = getUpstream NewUpstream f us;
          (rs, f2) = getUpstream_calls f1 calls
      in (r # rs, f2))"

text \<open>
  Modelled from the spec: the query context of the forward stage
  (\<^verbatim>\<open>query_context.QueryContext\<close>, not among the sources), of which the stage uses
  \<^verbatim>\<open>SetAnswer\<close> only: it records the answer section of the winning response.
\<close>

record QueryContext =
  answer :: "RR list"

definition SetAnswer :: "RR list \<Rightarrow> QueryContext \<Rightarrow> QueryContext" where
  "SetAnswer rrs qCtx = qCtx\<lparr>answer := rrs\<rparr>"

text \<open>\<^verbatim>\<open>Forward.handleResponse\<close>\<close>

definition handleResponse :: "Msg \<Rightarrow> QueryContext \<Rightarrow> error option \<times> QueryContext" where
  "handleResponse response qCtx =
     (if length (Answer response) = 0 then (Some (errors_New ''no answer''), qCtx)
      else (None, SetAnswer (Answer response) qCtx))"

text \<open>
  One dispatch: the upstream's configuration, and what the collaborators answer when
  this dispatch calls them: \<^verbatim>\<open>upstream.NewUpstream\<close> and the handle's
  \<^verbatim>\<open>Exchange\<close>.
\<close>

record 'u dispatch =
  cfg :: UpstreamConfig
  NewUpstream :: "string \<Rightarrow> UpstreamConfig \<Rightarrow> error + 'u"
  Exchange :: "'u \<Rightarrow> error + Msg"

text \<open>\<^verbatim>\<open>Forward.queryUpstream\<close>\<close>

definition queryUpstream ::
  "'u dispatch \<Rightarrow> 'u Forward \<Rightarrow> QueryContext \<Rightarrow> error option \<times> 'u Forward \<times> QueryContext" where
  "queryUpstream d f qCtx =
     (case getUpstream (NewUpstream d) f (cfg d) of
        (Inl err, f1) \<Rightarrow> (Some err, f1, qCtx)
      | (Inr up, f1) \<Rightarrow>
          (case Exchange d up of
             Inl err \<Rightarrow> (Some err, f1, qCtx)
           | Inr response \<Rightarrow>
               (let (err, qCtx1) = handleResponse response qCtx in (err, f1, qCtx1))))"

text \<open>
  \<^verbatim>\<open>Forward.Exec\<close>, for a context that is not cancelled while it runs. Every
  upstream gets a goroutine that runs \<^verbatim>\<open>queryUpstream\<close> and sends its error, if it
  has one, to \<^verbatim>\<open>errCh\<close>; a goroutine that succeeds sends nothing. The channel is
  closed when all goroutines are done. \<^verbatim>\<open>Exec\<close> then returns what it receives from
  \<^verbatim>\<open>errCh\<close> first: the first error sent, or nil from the closed channel when no
  goroutine has sent one. The list \<open>ds\<close> holds the dispatches of \<^verbatim>\<open>args.Upstreams\<close>
  in the order in which their goroutines finish; the result is the value \<^verbatim>\<open>Exec\<close>
  returns, with the state and the context as they are when the first error is sent
  (or when all dispatches are done).
\<close>

fun Forward_Exec ::
  "'u dispatch list \<Rightarrow> 'u Forward \<Rightarrow> QueryContext \<Rightarrow> error option \<times> 'u Forward \<times> QueryContext" where
  "Forward_Exec [] f qCtx = (None, f, qCtx)"
| "Forward_Exec (d # ds) f qCtx =
     (case queryUpstream d f qCtx of
        (Some err, f1, qCtx1) \<Rightarrow> (Some err, f1, qCtx1)
      | (None, f1, qCtx1) \<Rightarrow> Forward_Exec ds f1 qCtx1)"

text \<open>
  The invariant of the handle table: the table holds exactly the handles
  \<^verbatim>\<open>upstream.NewUpstream\<close> has returned, and no address has got two.
\<close>

definition cache_inv :: "'u Forward \<Rightarrow> bool" where
  "cache_inv f \<longleftrightarrow> distinct (map fst (dialed f)) \<and> upstreamCache f = map_of (dialed f)"

text \<open>An upstream entry with a tag and an address, every other field at its zero value.\<close>

definition upstream_entry :: "string \<Rightarrow> string \<Rightarrow> UpstreamConfig" where
  "upstream_entry tag addr =
     \<lparr>Tag = tag, Addr = addr, DialAddr = [], IdleTimeout = 0, MaxConns = 0,
      EnablePipeline = False, EnableHTTP3 = False, InsecureSkipVerify = False, Socks5 = [],
      SoMark = 0, BindToDevice = [], Bootstrap = [], BootstrapVer = 0\<rparr>"

section \<open>The fallback stage\<close>

text \<open>
  \<^verbatim>\<open>type fallback struct\<close>: the two stages and the standby flag. A stage's
  \<^verbatim>\<open>Exec\<close> is a function from the context it is given to its error and the context
  as it leaves it. The threshold \<^verbatim>\<open>fastFallbackDuration\<close> is kept as a number of
  nanoseconds; when it elapses relative to the primary branch is part of the schedule
  below.
\<close>

record fallback =
  primary :: "Context \<Rightarrow> error option \<times> Context"
  secondary :: "Context \<Rightarrow> error option \<times> Context"
  fastFallbackDuration :: int
  alwaysStandby :: bool

definition ErrFailed :: error where
  "ErrFailed = errors_New ''no valid response from both primary and secondary''"

text \<open>
  What the goroutines of \<^verbatim>\<open>doFallback\<close> leave to the scheduler and the clock:
  \<^item> \<open>timer_first\<close>: the threshold elapses before the primary branch completes, so
    the secondary goroutine's first \<^verbatim>\<open>select\<close> takes its \<^verbatim>\<open>time.After\<close> case;
  \<^item> \<open>sec_first\<close>: the secondary goroutine's value reaches \<^verbatim>\<open>respChan\<close> before the
    primary goroutine's;
  \<^item> \<open>done_at\<close>: the iteration of the final loop at which \<^verbatim>\<open><-ctx.Done()\<close> is
    taken, if the outer context is done while the loop waits, and \<open>cause\<close>, what
    \<^verbatim>\<open>context.Cause(ctx)\<close> is then.
\<close>

record sched =
  timer_first :: bool
  sec_first :: bool
  done_at :: "nat option"
  cause :: error

datatype signal = primDone | primFailed

datatype stage = Primary | Secondary

text \<open>
  The primary goroutine runs the primary stage on its copy of the context. It closes
  \<^verbatim>\<open>primFailed\<close> and sends nil when the stage returned an error or left no response,
  and closes \<^verbatim>\<open>primDone\<close> and sends the response otherwise.
\<close>

definition primary_goroutine :: "fallback \<Rightarrow> Context \<Rightarrow> signal \<times> Msg option" where
  "primary_goroutine f qCtx =
     (let qCtxP = qCtx;
          (err, qCtxP) = primary f qCtxP;
          r = R qCtxP
      in if err \<noteq> None \<or> r = None then (primFailed, None) else (primDone, r))"

text \<open>
  The case the first \<^verbatim>\<open>select\<close> of the secondary goroutine takes (it is reached only
  when always-standby is off): the timer's if the threshold elapses first, else the one
  of the channel the primary goroutine has closed.
\<close>

datatype select_case = case_primDone | case_primFailed | case_timer

definition first_select :: "sched \<Rightarrow> signal \<Rightarrow> select_case" where
  "first_select s sig =
     (if timer_first s then case_timer
      else (case sig of primDone \<Rightarrow> case_primDone | primFailed \<Rightarrow> case_primFailed))"

text \<open>
  The secondary goroutine: \<open>None\<close> when it returns without a call of the secondary
  stage and without a value for \<^verbatim>\<open>respChan\<close>, else the value it sends: nil after an
  error of the stage, the stage's response (which may be nil) otherwise. With
  always-standby on, a non-nil response is held back by a second \<^verbatim>\<open>select\<close>, every
  case of which ends in the same send.
\<close>

definition secondary_goroutine ::
  "fallback \<Rightarrow> sched \<Rightarrow> signal \<Rightarrow> Context \<Rightarrow> (Msg option) option" where
  "secondary_goroutine f s sig qCtx =
     (let qCtxS = qCtx
      in if \<not> alwaysStandby f \<and> first_select s sig = case_primDone then None
         else
           let (err, qCtxS) = secondary f qCtxS
           in if err \<noteq> None then Some None else Some (R qCtxS))"

text \<open>
  The stages whose \<^verbatim>\<open>Exec\<close> the goroutines of one request call: the primary's
  always, the secondary's unless its goroutine returns early.
\<close>

definition invoked :: "fallback \<Rightarrow> sched \<Rightarrow> Context \<Rightarrow> stage list" where
  "invoked f s qCtx =
     (case secondary_goroutine f s (fst (primary_goroutine f qCtx)) qCtx of
        None \<Rightarrow> [Primary]
      | Some v \<Rightarrow> [Primary, Secondary])"

text \<open>The values sent to \<^verbatim>\<open>respChan\<close>, in the order in which they arrive.\<close>

definition respChan_values :: "fallback \<Rightarrow> sched \<Rightarrow> Context \<Rightarrow> Msg option list" where
  "respChan_values f s qCtx =
     (let (sig, pv) = primary_goroutine f qCtx
      in case secondary_goroutine f s sig qCtx of
           None \<Rightarrow> [pv]
         | Some sv \<Rightarrow> if sec_first s then [sv, pv] else [pv, sv])"

text \<open>
  The final loop of \<^verbatim>\<open>doFallback\<close>, \<^verbatim>\<open>for i := 0; i < 2; i++\<close>, over the values
  that are still to arrive: at each iteration either the outer context is done and its
  cause is returned, or a value is received; a nil value continues the loop and a
  response is set on the context. Once both goroutines are done the channel is closed,
  and receiving from it yields nil. After two iterations the loop ends in
  \<^verbatim>\<open>ErrFailed\<close>.
\<close>

function wait_loop ::
  "nat \<Rightarrow> sched \<Rightarrow> Msg option list \<Rightarrow> Context \<Rightarrow> error option \<times> Context" where
  "wait_loop i s vals qCtx =
     (if \<not> i < 2 then (Some ErrFailed, qCtx)
      else if done_at s = Some i then (Some (cause s), qCtx)
      else
        (case vals of
           [] \<Rightarrow> wait_loop (i + 1) s [] qCtx
         | None # vs \<Rightarrow> wait_loop (i + 1) s vs qCtx
         | Some r # vs \<Rightarrow> (None, SetResponse (Some r) qCtx)))"
  by pat_completeness auto
termination
  by (relation "measure (\<lambda>(i, s, vals, qCtx). 2 - i)") auto

text \<open>\<^verbatim>\<open>fallback.Exec\<close>, which is \<^verbatim>\<open>doFallback\<close>.\<close>

definition doFallback :: "fallback \<Rightarrow> sched \<Rightarrow> Context \<Rightarrow> error option \<times> Context" where
  "doFallback f s qCtx = wait_loop 0 s (respChan_values f s qCtx) qCtx"

definition fallback_Exec :: "fallback \<Rightarrow> sched \<Rightarrow> Context \<Rightarrow> error option \<times> Context" where
  "fallback_Exec f s qCtx = doFallback f s qCtx"

text \<open>
  A branch's result is usable when its stage returned no error and left a response on
  its copy of the context.
\<close>

definition usable :: "error option \<times> Context \<Rightarrow> bool" where
  "usable res \<longleftrightarrow> fst res = None \<and> R (snd res) \<noteq> None"

section \<open>The redirect stage\<close>

text \<open>
  \<^verbatim>\<open>type Redirect struct\<close>: the matcher \<^verbatim>\<open>m\<close> (of \<^verbatim>\<open>pkg/matcher/domain\<close>, not
  among the sources), through its \<^verbatim>\<open>Match\<close> method only, and the memo table. The
  goroutine that deletes a memo entry after \<^verbatim>\<open>cacheExpire\<close> is outside the model.
\<close>

record Redirect =
  m_Match :: "string \<Rightarrow> string option"
  cache :: "string \<rightharpoonup> string"

definition getCache :: "Redirect \<Rightarrow> string \<Rightarrow> string option" where
  "getCache rd k = cache rd k"

definition setCache :: "Redirect \<Rightarrow> string \<Rightarrow> string \<Rightarrow> Redirect" where
  "setCache rd k v = rd\<lparr>cache := (cache rd)(k \<mapsto> v)\<rparr>"

text \<open>A panic of the Go runtime.\<close>

datatype panic = index_out_of_range

text \<open>
  The loop over \<^verbatim>\<open>r.Question\<close>: every entry whose name is the redirect target gets the
  original name.
\<close>

fun restore_names :: "string \<Rightarrow> string \<Rightarrow> Question list \<Rightarrow> Question list" where
  "restore_names redirectTarget orgQName [] = []"
| "restore_names redirectTarget orgQName (x # xs) =
     (if Name x = redirectTarget then x\<lparr>Name := orgQName\<rparr> else x)
       # restore_names redirectTarget orgQName xs"

text \<open>
  \<^verbatim>\<open>Redirect.Exec\<close>. \<open>next\<close> is the rest of the chain. The deferred function
  writes \<^verbatim>\<open>q.Question[0].Name\<close> when \<^verbatim>\<open>Exec\<close> returns; the index panics if the
  chain has emptied the request's question section in between.
\<close>

definition Redirect_Exec ::
  "Redirect \<Rightarrow> Context \<Rightarrow> (Context \<Rightarrow> error option \<times> Context) \<Rightarrow>
   panic + (error option \<times> Redirect \<times> Context)" where
  "Redirect_Exec rd qCtx next =
     (let q = Q qCtx
      in if length (Question q) \<noteq> 1 \<or> Qclass (Question q ! 0) \<noteq> ClassINET
         then (let (err, qCtx1) = next qCtx in Inr (err, rd, qCtx1))
         else
           let orgQName = Name (Question q ! 0);
               (found, rd) =
                 (case getCache rd orgQName of
                    Some target \<Rightarrow> (Some target, rd)
                  | None \<Rightarrow>
                      (case m_Match rd orgQName of
                         Some target \<Rightarrow> (Some target, setCache rd orgQName target)
                       | None \<Rightarrow> (None, rd)))
           in case found of
                None \<Rightarrow> (let (err, qCtx1) = next qCtx in Inr (err, rd, qCtx1))
              | Some redirectTarget \<Rightarrow>
                  let q = q\<lparr>Question := (Question q)[0 := (Question q ! 0)\<lparr>Name := redirectTarget\<rparr>]\<rparr>;
                      (err, qCtx1) = next (qCtx\<lparr>Q := q\<rparr>);
                      qCtx2 =
                        (case R qCtx1 of
                           None \<Rightarrow> qCtx1
                         | Some r \<Rightarrow>
                             qCtx1\<lparr>R := Some (r\<lparr>
                               Question := restore_names redirectTarget orgQName (Question r),
                               Answer :=
                                 CNAME \<lparr>Hdr_Name = orgQName, Rrtype = TypeCNAME,
                                        Class = ClassINET, Ttl = 1\<rparr> redirectTarget
                                   # Answer r\<rparr>)\<rparr>)
                  in case Question (Q qCtx2) of
                       [] \<Rightarrow> Inl index_out_of_range
                     | x # xs \<Rightarrow>
                         Inr (err, rd,
                              qCtx2\<lparr>Q := (Q qCtx2)\<lparr>Question := x\<lparr>Name := orgQName\<rparr> # xs\<rparr>\<rparr>))"

section \<open>Example values\<close>

text \<open>
  A query for the A record of \<^verbatim>\<open>example.com.\<close> with the transaction id 7, a response
  to it with one address record, and a context that holds the query and no response.
\<close>

definition example_query :: Msg where
  "example_query =
     \<lparr>MsgHdr_Id = 7, Question = [\<lparr>Name = ''example.com.'', Qtype = 1, Qclass = 1\<rparr>], Answer = []\<rparr>"

definition example_response :: Msg where
  "example_response =
     \<lparr>MsgHdr_Id = 7, Question = [\<lparr>Name = ''example.com.'', Qtype = 1, Qclass = 1\<rparr>],
      Answer = [OtherRR \<lparr>Hdr_Name = ''example.com.'', Rrtype = 1, Class = 1, Ttl = 60\<rparr>
                  [192, 0, 2, 7]]\<rparr>"

definition example_ctx :: Context where
  "example_ctx = \<lparr>Q = example_query, R = None, marks = {}\<rparr>"

text \<open>Stages for the examples: one that fails, one that answers with a given response.\<close>

definition failing_stage :: "string \<Rightarrow> Context \<Rightarrow> error option \<times> Context" where
  "failing_stage msg qCtx = (Some (stage_error msg), qCtx)"

definition answering_stage :: "Msg \<Rightarrow> Context \<Rightarrow> error option \<times> Context" where
  "answering_stage r qCtx = (None, SetResponse (Some r) qCtx)"

text \<open>A stage that answers the question it is given with the records \<open>rrs\<close>.\<close>

definition echo_stage :: "RR list \<Rightarrow> Context \<Rightarrow> error option \<times> Context" where
  "echo_stage rrs qCtx =
     (None, SetResponse (Some \<lparr>MsgHdr_Id = MsgHdr_Id (Q qCtx), Question = Question (Q qCtx),
                                Answer = rrs\<rparr>) qCtx)"

text \<open>
  An environment for the cache stage: the key of a query with one question is the
  question's name, an entry is fresh while its remaining time is not negative, and a
  response is stored with a remaining time of 60.
\<close>

definition example_env :: cache_env where
  "example_env =
     \<lparr>msgKeyOf = (\<lambda>q. case Question q of [x] \<Rightarrow> Name x | _ \<Rightarrow> []),
      fresh = (\<lambda>i. \<not> Expired i 0),
      in_lazy_window = (\<lambda>i. \<not> Expired i (- 86400)),
      saveRespToCache = (\<lambda>k r b t. b(k \<mapsto> \<lparr>resp = r, ttl = 60\<rparr>))\<rparr>"

text \<open>The end of the chain: no error, the context as it is.\<close>

definition end_of_chain :: "Context \<Rightarrow> error option \<times> Context" where
  "end_of_chain qCtx = (None, qCtx)"

section \<open>Properties of the mark stage\<close>

lemma Match_loop_iff: "Match_loop us qCtx \<longleftrightarrow> (\<exists>u \<in> set us. HasMark u qCtx)"
  by (induction us) auto

lemma marks_Exec_loop: "marks (Exec_loop us qCtx) = set us \<union> marks qCtx"
  by (induction us arbitrary: qCtx) (auto simp: SetMark_def)

lemma Exec_loop_frame: "Q (Exec_loop us qCtx) = Q qCtx \<and> R (Exec_loop us qCtx) = R qCtx"
  by (induction us arbitrary: qCtx) (auto simp: SetMark_def)

text \<open>
  Claim C10. Set-then-test round trip of the mark stage: Match is true exactly when the
  context carries at least one of the configured marks; Exec sets every configured mark
  on the context; and for a stage with a non-empty list of marks, Match is true on the
  context Exec returns.
\<close>

theorem mark_Exec_then_Match:
  "(mark_Match mk qCtx \<longleftrightarrow> (\<exists>u \<in> set (mark_m mk). HasMark u qCtx)) \<and>
   (\<forall>u \<in> set (mark_m mk). HasMark u (mark_Exec mk qCtx)) \<and>
   (mark_m mk \<noteq> [] \<longrightarrow> mark_Match mk (mark_Exec mk qCtx))"
proof (intro conjI impI)
  show "mark_Match mk qCtx \<longleftrightarrow> (\<exists>u \<in> set (mark_m mk). HasMark u qCtx)"
    by (simp add: mark_Match_def Match_loop_iff)
  show "\<forall>u \<in> set (mark_m mk). HasMark u (mark_Exec mk qCtx)"
    by (simp add: mark_Exec_def HasMark_def marks_Exec_loop)
next
  assume "mark_m mk \<noteq> []"
  then obtain u where "u \<in> set (mark_m mk)"
    by (cases "mark_m mk") auto
  then have "\<exists>u \<in> set (mark_m mk). HasMark u (mark_Exec mk qCtx)"
    by (auto simp: mark_Exec_def HasMark_def marks_Exec_loop)
  then show "mark_Match mk (mark_Exec mk qCtx)"
    by (simp add: mark_Match_def Match_loop_iff)
qed

theorem mark_Exec_then_Match_witness:
  "mark_m \<lparr>mark_m = [7, 9]\<rparr> \<noteq> [] \<and>
   mark_Match \<lparr>mark_m = [7, 9]\<rparr>
     (mark_Exec \<lparr>mark_m = [7, 9]\<rparr> \<lparr>Q = \<lparr>MsgHdr_Id = 1, Question = [], Answer = []\<rparr>, R = None, marks = {}\<rparr>) \<and>
   HasMark 9 (mark_Exec \<lparr>mark_m = [7, 9]\<rparr> \<lparr>Q = \<lparr>MsgHdr_Id = 1, Question = [], Answer = []\<rparr>, R = None, marks = {}\<rparr>) \<and>
   \<not> mark_Match \<lparr>mark_m = [7, 9]\<rparr> \<lparr>Q = \<lparr>MsgHdr_Id = 1, Question = [], Answer = []\<rparr>, R = None, marks = {3}\<rparr>"
  using mark_Exec_then_Match [of "\<lparr>mark_m = [7, 9]\<rparr>"
      "\<lparr>Q = \<lparr>MsgHdr_Id = 1, Question = [], Answer = []\<rparr>, R = None, marks = {}\<rparr>"]
    mark_Exec_then_Match [of "\<lparr>mark_m = [7, 9]\<rparr>"
      "\<lparr>Q = \<lparr>MsgHdr_Id = 1, Question = [], Answer = []\<rparr>, R = None, marks = {3}\<rparr>"]
  by (simp add: HasMark_def)

section \<open>Properties of the constructor \<^verbatim>\<open>newMarker\<close>\<close>

lemma FieldsFunc_loop_skip:
  "FieldsFunc_loop f None (replicate k c @ rest) = (if f c then FieldsFunc_loop f None rest else FieldsFunc_loop f None (replicate k c @ rest))"
  by (induction k) auto

lemma FieldsFunc_loop_token:
  "\<forall>c \<in> set t. \<not> f c \<Longrightarrow> FieldsFunc_loop f (Some w) (t @ rest) = FieldsFunc_loop f (Some (w @ t)) rest"
  by (induction t arbitrary: w) auto

lemma FieldsFunc_loop_start:
  "t \<noteq> [] \<Longrightarrow> \<forall>c \<in> set t. \<not> f c \<Longrightarrow> FieldsFunc_loop f None (t @ rest) = FieldsFunc_loop f (Some t) rest"
  by (cases t) (auto simp: FieldsFunc_loop_token)

lemma FieldsFunc_loop_close:
  "f c \<Longrightarrow> 0 < k \<Longrightarrow> FieldsFunc_loop f (Some w) (replicate k c @ rest) = w # FieldsFunc_loop f None rest"
  by (cases k) (auto simp: FieldsFunc_loop_skip)

lemma FieldsFunc_loop_blank:
  "f c \<Longrightarrow> FieldsFunc_loop f None (replicate k c) = []"
  by (induction k) auto

lemma FieldsFunc_loop_trail:
  "f c \<Longrightarrow> FieldsFunc_loop f (Some w) (replicate k c) = [w]"
  by (cases k) (auto simp: FieldsFunc_loop_blank)

lemma FieldsFunc_loop_tokens:
  assumes "\<forall>(t, k) \<in> set tks. t \<noteq> [] \<and> (\<forall>c \<in> set t. \<not> f c)"
    and "\<forall>(t, k) \<in> set (butlast tks). 0 < k"
    and "f c"
  shows "FieldsFunc_loop f None (concat (map (\<lambda>(t, k). t @ replicate k c) tks)) = map fst tks"
  using assms
proof (induction tks)
  case Nil
  then show ?case by simp
next
  case (Cons tk tks)
  obtain t k where tk: "tk = (t, k)" by (cases tk)
  show ?case
  proof (cases "tks = []")
    case True
    with Cons.prems tk show ?thesis
      using FieldsFunc_loop_start [of t f "replicate k c"]
      by (auto simp: FieldsFunc_loop_trail)
  next
    case False
    with Cons.prems tk have k: "0 < k" by auto
    have IH: "FieldsFunc_loop f None (concat (map (\<lambda>(t, k). t @ replicate k c) tks)) = map fst tks"
      using Cons.IH Cons.prems False by auto
    from Cons.prems tk have t: "t \<noteq> []" "\<forall>c \<in> set t. \<not> f c" by auto
    show ?thesis
      using t k IH \<open>f c\<close> by (simp add: tk FieldsFunc_loop_start FieldsFunc_loop_close)
  qed
qed

lemma newMarker_loop_ok:
  "\<forall>t \<in> set fs. \<exists>n. ParseUint t 0 32 = Inr n \<Longrightarrow>
   newMarker_loop fs m = Inr (m @ map (\<lambda>t. ucast (projr (ParseUint t 0 32))) fs)"
  by (induction fs arbitrary: m) auto

lemma newMarker_loop_err:
  "(\<exists>e. newMarker_loop fs m = Inl e) \<longleftrightarrow> (\<exists>t \<in> set fs. \<exists>e. ParseUint t 0 32 = Inl e)"
  by (induction fs arbitrary: m) (auto split: sum.splits)

lemma FieldsFunc_join_spaces:
  assumes "\<forall>(t, k) \<in> set tks. t \<noteq> [] \<and> CHR '' '' \<notin> set t"
    and "\<forall>(t, k) \<in> set (butlast tks). 0 < k"
  shows "FieldsFunc (join_spaces lead tks) (\<lambda>r. r = CHR '' '') = map fst tks"
proof -
  have "\<forall>(t, k) \<in> set tks. t \<noteq> [] \<and> (\<forall>c \<in> set t. \<not> c = CHR '' '')"
    using assms(1) by auto
  then have "FieldsFunc_loop (\<lambda>r. r = CHR '' '') None
      (concat (map (\<lambda>(t, k). t @ replicate k CHR '' '') tks)) = map fst tks"
    using assms(2) by (intro FieldsFunc_loop_tokens) auto
  then show ?thesis
    by (simp add: FieldsFunc_def join_spaces_def FieldsFunc_loop_skip)
qed

lemma newMarker_fields_ok:
  "\<forall>t \<in> set (FieldsFunc s (\<lambda>r. r = CHR '' '')). \<exists>n. ParseUint t 0 32 = Inr n \<Longrightarrow>
   newMarker s = Inr \<lparr>mark_m = map (\<lambda>t. ucast (projr (ParseUint t 0 32)))
     (FieldsFunc s (\<lambda>r. r = CHR '' ''))\<rparr>"
  by (simp add: newMarker_def newMarker_loop_ok)

lemma newMarker_fields_err:
  "(\<exists>e. newMarker s = Inl e) \<longleftrightarrow>
   (\<exists>t \<in> set (FieldsFunc s (\<lambda>r. r = CHR '' '')). \<exists>e. ParseUint t 0 32 = Inl e)"
  using newMarker_loop_err [of "FieldsFunc s (\<lambda>r. r = CHR '' '')" "[]"]
  by (auto simp: newMarker_def split: sum.splits)

text \<open>
  Claim C9, as amended. For every configuration string that is a list of tokens
  separated by runs of space characters (U+0020), with any number of spaces before the
  first and after the last token: if every token parses as an unsigned 32-bit integer
  (\<^verbatim>\<open>strconv.ParseUint\<close> with base 0, the Go syntax for integer literals),
  \<^verbatim>\<open>newMarker\<close> returns a mark stage that carries exactly those integers in order;
  and it returns an error if and only if some token fails to parse.
\<close>

theorem newMarker_space_separated:
  assumes "\<forall>(t, k) \<in> set tks. t \<noteq> [] \<and> CHR '' '' \<notin> set t"
    and "\<forall>(t, k) \<in> set (butlast tks). 0 < k"
  shows "((\<forall>(t, k) \<in> set tks. \<exists>n. ParseUint t 0 32 = Inr n) \<longrightarrow>
            newMarker (join_spaces lead tks) =
              Inr \<lparr>mark_m = map (\<lambda>(t, k). ucast (projr (ParseUint t 0 32))) tks\<rparr>) \<and>
         ((\<exists>e. newMarker (join_spaces lead tks) = Inl e) \<longleftrightarrow>
            (\<exists>(t, k) \<in> set tks. \<exists>e. ParseUint t 0 32 = Inl e))"
proof -
  have fields: "FieldsFunc (join_spaces lead tks) (\<lambda>r. r = CHR '' '') = map fst tks"
    using assms by (rule FieldsFunc_join_spaces)
  have "newMarker (join_spaces lead tks) =
      Inr \<lparr>mark_m = map (\<lambda>(t, k). ucast (projr (ParseUint t 0 32))) tks\<rparr>"
    if "\<forall>(t, k) \<in> set tks. \<exists>n. ParseUint t 0 32 = Inr n"
  proof -
    from that have "\<forall>t \<in> set (FieldsFunc (join_spaces lead tks) (\<lambda>r. r = CHR '' '')).
        \<exists>n. ParseUint t 0 32 = Inr n"
      unfolding fields by auto
    from newMarker_fields_ok [OF this] show ?thesis
      unfolding fields by (simp add: comp_def case_prod_unfold)
  qed
  moreover have "(\<exists>e. newMarker (join_spaces lead tks) = Inl e) \<longleftrightarrow>
      (\<exists>(t, k) \<in> set tks. \<exists>e. ParseUint t 0 32 = Inl e)"
    unfolding newMarker_fields_err fields by (force simp: case_prod_unfold)
  ultimately show ?thesis by blast
qed

lemma ParseUint_examples:
  "ParseUint ''111'' 0 32 = Inr 111"
  "ParseUint ''0b111'' 0 32 = Inr 7"
  "ParseUint ''0o111'' 0 32 = Inr 73"
  "ParseUint ''0xfff'' 0 32 = Inr 4095"
  "ParseUint ''4294967296'' 0 32 = Inl ErrRange"
  by code_simp+

theorem newMarker_space_separated_witness:
  "newMarker '' 111 0b111  0o111 0xfff'' = Inr \<lparr>mark_m = [111, 7, 73, 4095]\<rparr> \<and>
   (\<exists>e. newMarker ''111 4294967296 '' = Inl e)"
proof -
  let ?ok = "[(''111'', 1), (''0b111'', 2), (''0o111'', 1), (''0xfff'', 0)] :: (string \<times> nat) list"
  let ?bad = "[(''111'', 1), (''4294967296'', 1)] :: (string \<times> nat) list"
  have ok: "newMarker (join_spaces 1 ?ok) =
      Inr \<lparr>mark_m = map (\<lambda>(t, k). ucast (projr (ParseUint t 0 32))) ?ok\<rparr>"
    using newMarker_space_separated [of ?ok 1] by (simp add: ParseUint_examples)
  have bad: "\<exists>e. newMarker (join_spaces 0 ?bad) = Inl e"
    using newMarker_space_separated [of ?bad 0] by (simp add: ParseUint_examples)
  have "join_spaces 1 ?ok = '' 111 0b111  0o111 0xfff''"
    and "join_spaces 0 ?bad = ''111 4294967296 ''"
    by (simp_all add: join_spaces_def numeral_2_eq_2)
  with ok bad show ?thesis
    by (simp add: ParseUint_examples)
qed

text \<open>
  Claim C9 as stated fails for white space other than the space character: a tab between
  the valid literals 1 and 2 does not separate them, and the string is refused.
\<close>

theorem newMarker_tab_counterexample:
  "ParseUint ''1'' 0 32 = Inr 1 \<and> ParseUint ''2'' 0 32 = Inr 2 \<and>
   newMarker [CHR ''1'', CHR 0x09, CHR ''2''] = Inl ErrSyntax"
  by code_simp

section \<open>Properties of the cache key\<close>

lemma length_getMsgKey: "length (getMsgKey src q) = 16"
  by (simp add: getMsgKey_def PutUint64_def copy_def Let_def)

lemma PutUint64_8:
  "PutUint64 (replicate 8 0) v =
     [ucast (drop_bit 56 v), ucast (drop_bit 48 v), ucast (drop_bit 40 v),
      ucast (drop_bit 32 v), ucast (drop_bit 24 v), ucast (drop_bit 16 v),
      ucast (drop_bit 8 v), ucast v]"
  by (simp add: PutUint64_def eval_nat_numeral)

lemma take8_getMsgKey:
  "take 8 (getMsgKey src q) = PutUint64 (replicate 8 0) (ucast (MsgHdr_Id q))"
  by (simp add: getMsgKey_def Let_def PutUint64_def)

lemma id_bytes:
  fixes a b :: uint16
  assumes "(ucast (drop_bit 8 (ucast a :: uint64)) :: byte) = ucast (drop_bit 8 (ucast b :: uint64))"
    and "(ucast (ucast a :: uint64) :: byte) = ucast (ucast b :: uint64)"
  shows "a = b"
proof (rule bit_eqI)
  fix n
  assume "possible_bit TYPE(uint16) n"
  then have n: "n < 16" by (simp add: possible_bit_word)
  show "bit a n = bit b n"
  proof (cases "n < 8")
    case True
    from assms(2) have "bit (ucast (ucast a :: uint64) :: byte) n = bit (ucast (ucast b :: uint64) :: byte) n"
      by simp
    with True show ?thesis by (simp add: bit_simps)
  next
    case False
    from assms(1) have "bit (ucast (drop_bit 8 (ucast a :: uint64)) :: byte) (n - 8) = bit (ucast (drop_bit 8 (ucast b :: uint64)) :: byte) (n - 8)"
      by simp
    moreover from False n have "n - 8 < 8" "n - 8 + 8 = n" by arith+
    ultimately show ?thesis by (simp add: bit_simps)
  qed
qed

lemma getMsgKey_inj_id:
  assumes "getMsgKey src q1 = getMsgKey src' q2"
  shows "MsgHdr_Id q1 = MsgHdr_Id q2"
proof -
  from assms have "take 8 (getMsgKey src q1) = take 8 (getMsgKey src' q2)" by simp
  then have "PutUint64 (replicate 8 0) (ucast (MsgHdr_Id q1)) = PutUint64 (replicate 8 0) (ucast (MsgHdr_Id q2))"
    by (simp only: take8_getMsgKey)
  then show ?thesis
    by (intro id_bytes) (simp_all add: PutUint64_8)
qed

text \<open>
  Claim C1 at a failing input. Two queries with the same single question
  (\<^verbatim>\<open>example.com.\<close>, type A, class IN) and the transaction ids 1 and 2 get different
  keys, whatever bytes of the message the cut-off \<^verbatim>\<open>copy\<close> reads: the id is written
  into the first eight bytes of the key.
\<close>

theorem getMsgKey_depends_on_id:
  "getMsgKey src \<lparr>MsgHdr_Id = 1,
       Question = [\<lparr>Name = ''example.com.'', Qtype = 1, Qclass = 1\<rparr>], Answer = []\<rparr>
   \<noteq> getMsgKey src \<lparr>MsgHdr_Id = 2,
       Question = [\<lparr>Name = ''example.com.'', Qtype = 1, Qclass = 1\<rparr>], Answer = []\<rparr>"
proof
  assume "getMsgKey src \<lparr>MsgHdr_Id = 1,
       Question = [\<lparr>Name = ''example.com.'', Qtype = 1, Qclass = 1\<rparr>], Answer = []\<rparr>
   = getMsgKey src \<lparr>MsgHdr_Id = 2,
       Question = [\<lparr>Name = ''example.com.'', Qtype = 1, Qclass = 1\<rparr>], Answer = []\<rparr>"
  from getMsgKey_inj_id [OF this] show False by simp
qed

section \<open>Properties of the forward stage\<close>

lemma getUpstream_cached:
  "upstreamCache f (Addr us) = Some up \<Longrightarrow> getUpstream new f us = (Inr up, f)"
  by (simp add: getUpstream_def)

lemma cache_inv_NewForward: "cache_inv (NewForward ups)"
  by (simp add: cache_inv_def NewForward_def)

lemma getUpstream_inv:
  assumes "cache_inv f" and "getUpstream new f us = (r, f1)"
  shows "cache_inv f1"
  using assms
  by (auto simp: getUpstream_def cache_inv_def map_of_eq_None_iff split: option.splits sum.splits)

lemma getUpstream_mono:
  assumes "getUpstream new f us = (r, f1)" and "upstreamCache f a = Some up"
  shows "upstreamCache f1 a = Some up"
  using assms
  by (auto simp: getUpstream_def split: option.splits sum.splits)

lemma getUpstream_result:
  assumes "getUpstream new f us = (Inr up, f1)"
  shows "upstreamCache f1 (Addr us) = Some up"
  using assms
  by (auto simp: getUpstream_def split: option.splits sum.splits)

lemma getUpstream_calls_length:
  "getUpstream_calls f calls = (rs, f') \<Longrightarrow> length rs = length calls"
  by (induction calls arbitrary: f rs f') (auto split: prod.splits)

lemma getUpstream_calls_inv:
  "cache_inv f \<Longrightarrow> getUpstream_calls f calls = (rs, f') \<Longrightarrow> cache_inv f'"
proof (induction calls arbitrary: f rs f')
  case Nil
  then show ?case by simp
next
  case (Cons c calls)
  obtain new us where c: "c = (new, us)" by (cases c)
  obtain r f1 where g: "getUpstream new f us = (r, f1)" by (cases "getUpstream new f us")
  obtain rs1 f2 where h: "getUpstream_calls f1 calls = (rs1, f2)" by (cases "getUpstream_calls f1 calls")
  from Cons.prems(2) c g h have "f' = f2" by simp
  moreover have "cache_inv f1" using Cons.prems(1) g by (rule getUpstream_inv)
  ultimately show ?case using Cons.IH h by blast
qed

lemma getUpstream_calls_mono:
  "getUpstream_calls f calls = (rs, f') \<Longrightarrow> upstreamCache f a = Some up \<Longrightarrow>
   upstreamCache f' a = Some up"
proof (induction calls arbitrary: f rs f')
  case Nil
  then show ?case by simp
next
  case (Cons c calls)
  obtain new us where c: "c = (new, us)" by (cases c)
  obtain r f1 where g: "getUpstream new f us = (r, f1)" by (cases "getUpstream new f us")
  obtain rs1 f2 where h: "getUpstream_calls f1 calls = (rs1, f2)" by (cases "getUpstream_calls f1 calls")
  from Cons.prems(1) c g h have "f' = f2" by simp
  moreover have "upstreamCache f1 a = Some up" using g Cons.prems(2) by (rule getUpstream_mono)
  ultimately show ?case using Cons.IH h by blast
qed

lemma getUpstream_calls_results:
  "getUpstream_calls f calls = (rs, f') \<Longrightarrow> i < length calls \<Longrightarrow> rs ! i = Inr up \<Longrightarrow>
   upstreamCache f' (Addr (snd (calls ! i))) = Some up"
proof (induction calls arbitrary: f rs f' i)
  case Nil
  then show ?case by simp
next
  case (Cons c calls)
  obtain new us where c: "c = (new, us)" by (cases c)
  obtain r f1 where g: "getUpstream new f us = (r, f1)" by (cases "getUpstream new f us")
  obtain rs1 f2 where h: "getUpstream_calls f1 calls = (rs1, f2)" by (cases "getUpstream_calls f1 calls")
  from Cons.prems(1) c g h have eq: "f' = f2" "rs = r # rs1" by simp_all
  show ?case
  proof (cases i)
    case 0
    with Cons.prems(3) eq have "r = Inr up" by simp
    with g have "upstreamCache f1 (Addr us) = Some up" by (simp add: getUpstream_result)
    with h have "upstreamCache f2 (Addr us) = Some up" by (rule getUpstream_calls_mono)
    with 0 c eq show ?thesis by simp
  next
    case (Suc j)
    with Cons.prems eq have "j < length calls" "rs1 ! j = Inr up" by simp_all
    with Cons.IH h have "upstreamCache f2 (Addr (snd (calls ! j))) = Some up" by blast
    with Suc eq show ?thesis by simp
  qed
qed

text \<open>
  Claim C8. The calls of \<^verbatim>\<open>getUpstream\<close> on a forward stage hold the mutex from
  entry to return, so they form a sequence on the stage's state. After any sequence of
  calls on a new stage: no address has had more than one handle created for it; the
  table holds exactly the handles created; every handle a call returns is the one
  created for its address; and any two calls for the same address that return a handle
  return the same one. (A call whose \<^verbatim>\<open>upstream.NewUpstream\<close> fails returns the
  error and no handle, and leaves the table as it was.)
\<close>

theorem getUpstream_shared_handle:
  assumes "getUpstream_calls (NewForward ups) calls = (rs, f)"
  shows "distinct (map fst (dialed f)) \<and>
         upstreamCache f = map_of (dialed f) \<and>
         (\<forall>i < length calls. \<forall>up. rs ! i = Inr up \<longrightarrow>
            (Addr (snd (calls ! i)), up) \<in> set (dialed f)) \<and>
         (\<forall>i < length calls. \<forall>j < length calls. \<forall>up up'.
            Addr (snd (calls ! i)) = Addr (snd (calls ! j)) \<and> rs ! i = Inr up \<and> rs ! j = Inr up'
            \<longrightarrow> up = up')"
proof -
  have inv: "cache_inv f"
    using cache_inv_NewForward assms by (rule getUpstream_calls_inv)
  have res: "upstreamCache f (Addr (snd (calls ! i))) = Some up"
    if "i < length calls" "rs ! i = Inr up" for i up
    using assms that by (rule getUpstream_calls_results)
  have "(Addr (snd (calls ! i)), up) \<in> set (dialed f)"
    if "i < length calls" "rs ! i = Inr up" for i up
    using res [OF that] inv by (auto simp: cache_inv_def dest: map_of_SomeD)
  moreover have "up = up'"
    if "i < length calls" "j < length calls"
      "Addr (snd (calls ! i)) = Addr (snd (calls ! j))" "rs ! i = Inr up" "rs ! j = Inr up'"
    for i j up up'
    using res [OF that(1,4)] res [OF that(2,5)] that(3) by simp
  ultimately show ?thesis
    using inv by (auto simp: cache_inv_def)
qed

theorem getUpstream_shared_handle_witness:
  "getUpstream_calls (NewForward [])
     [(\<lambda>a us. Inr (1::nat), upstream_entry ''a'' ''udp://192.0.2.1''),
      (\<lambda>a us. Inl (stage_error ''dial''), upstream_entry ''b'' ''udp://192.0.2.2''),
      (\<lambda>a us. Inr 2, upstream_entry ''a2'' ''udp://192.0.2.1'')]
   = ([Inr 1, Inl (stage_error ''dial''), Inr 1],
      \<lparr>Upstreams = [], upstreamCache = [''udp://192.0.2.1'' \<mapsto> 1],
       dialed = [(''udp://192.0.2.1'', 1)]\<rparr>) \<and>
   distinct (map fst [(''udp://192.0.2.1'', 1::nat)])"
proof -
  let ?calls = "[(\<lambda>a us. Inr (1::nat), upstream_entry ''a'' ''udp://192.0.2.1''),
      (\<lambda>a us. Inl (stage_error ''dial''), upstream_entry ''b'' ''udp://192.0.2.2''),
      (\<lambda>a us. Inr 2, upstream_entry ''a2'' ''udp://192.0.2.1'')]"
  let ?f = "\<lparr>Upstreams = [], upstreamCache = [''udp://192.0.2.1'' \<mapsto> 1::nat],
       dialed = [(''udp://192.0.2.1'', 1)]\<rparr>"
  have run: "getUpstream_calls (NewForward []) ?calls = ([Inr 1, Inl (stage_error ''dial''), Inr 1], ?f)"
    by (simp add: getUpstream_def NewForward_def upstream_entry_def)
  from getUpstream_shared_handle [OF run] have "distinct (map fst (dialed ?f))"
    by blast
  with run show ?thesis by simp
qed

lemma Forward_Exec_error:
  assumes "d \<in> set ds" and "\<And>f qCtx. fst (queryUpstream d f qCtx) \<noteq> None"
  shows "fst (Forward_Exec ds f qCtx) \<noteq> None"
  using assms(1)
proof (induction ds arbitrary: f qCtx)
  case Nil
  then show ?case by simp
next
  case (Cons x ds)
  obtain e f1 q1 where q: "queryUpstream x f qCtx = (e, f1, q1)"
    by (cases "queryUpstream x f qCtx")
  show ?case
  proof (cases e)
    case (Some err)
    with q show ?thesis by simp
  next
    case None
    with q assms(2) [of f qCtx] have "x \<noteq> d" by auto
    with Cons.prems have "d \<in> set ds" by simp
    with Cons.IH have "fst (Forward_Exec ds f1 q1) \<noteq> None" by blast
    with None q show ?thesis by simp
  qed
qed

lemma queryUpstream_Exchange_error:
  assumes "\<And>up. Exchange d up = Inl (err up)"
  shows "fst (queryUpstream d f qCtx) \<noteq> None"
  by (auto simp: queryUpstream_def assms split: prod.splits sum.splits)

text \<open>
  Claim C3 at a failing input. Two upstreams: the first answers with one record, the
  dispatch to the second fails with a timeout. In either order of completion
  \<^verbatim>\<open>Forward.Exec\<close> returns the second upstream's error; when the first upstream is
  done first its answer is on the context by then, and the error is returned all the
  same.
\<close>

theorem Forward_Exec_returns_first_error:
  "fst (Forward_Exec
     [\<lparr>cfg = upstream_entry ''a'' ''udp://192.0.2.1'',
       NewUpstream = \<lambda>a us. Inr (1::nat),
       Exchange = \<lambda>up. Inr \<lparr>MsgHdr_Id = 7,
         Question = [\<lparr>Name = ''example.com.'', Qtype = 1, Qclass = 1\<rparr>],
         Answer = [OtherRR \<lparr>Hdr_Name = ''example.com.'', Rrtype = 1, Class = 1, Ttl = 60\<rparr>
                     [192, 0, 2, 7]]\<rparr>\<rparr>,
      \<lparr>cfg = upstream_entry ''b'' ''udp://192.0.2.2'',
       NewUpstream = \<lambda>a us. Inr 2,
       Exchange = \<lambda>up. Inl (stage_error ''i/o timeout'')\<rparr>]
     (NewForward [upstream_entry ''a'' ''udp://192.0.2.1'',
        upstream_entry ''b'' ''udp://192.0.2.2'']) \<lparr>answer = []\<rparr>) = Some (stage_error ''i/o timeout'') \<and>
   answer (snd (snd (Forward_Exec
     [\<lparr>cfg = upstream_entry ''a'' ''udp://192.0.2.1'',
       NewUpstream = \<lambda>a us. Inr (1::nat),
       Exchange = \<lambda>up. Inr \<lparr>MsgHdr_Id = 7,
         Question = [\<lparr>Name = ''example.com.'', Qtype = 1, Qclass = 1\<rparr>],
         Answer = [OtherRR \<lparr>Hdr_Name = ''example.com.'', Rrtype = 1, Class = 1, Ttl = 60\<rparr>
                     [192, 0, 2, 7]]\<rparr>\<rparr>,
      \<lparr>cfg = upstream_entry ''b'' ''udp://192.0.2.2'',
       NewUpstream = \<lambda>a us. Inr 2,
       Exchange = \<lambda>up. Inl (stage_error ''i/o timeout'')\<rparr>]
     (NewForward [upstream_entry ''a'' ''udp://192.0.2.1'',
        upstream_entry ''b'' ''udp://192.0.2.2'']) \<lparr>answer = []\<rparr>)))
     = [OtherRR \<lparr>Hdr_Name = ''example.com.'', Rrtype = 1, Class = 1, Ttl = 60\<rparr> [192, 0, 2, 7]] \<and>
   fst (Forward_Exec
     [\<lparr>cfg = upstream_entry ''b'' ''udp://192.0.2.2'',
       NewUpstream = \<lambda>a us. Inr 2,
       Exchange = \<lambda>up. Inl (stage_error ''i/o timeout'')\<rparr>,
      \<lparr>cfg = upstream_entry ''a'' ''udp://192.0.2.1'',
       NewUpstream = \<lambda>a us. Inr (1::nat),
       Exchange = \<lambda>up. Inr \<lparr>MsgHdr_Id = 7,
         Question = [\<lparr>Name = ''example.com.'', Qtype = 1, Qclass = 1\<rparr>],
         Answer = [OtherRR \<lparr>Hdr_Name = ''example.com.'', Rrtype = 1, Class = 1, Ttl = 60\<rparr>
                     [192, 0, 2, 7]]\<rparr>\<rparr>]
     (NewForward [upstream_entry ''a'' ''udp://192.0.2.1'',
        upstream_entry ''b'' ''udp://192.0.2.2'']) \<lparr>answer = []\<rparr>) = Some (stage_error ''i/o timeout'')"
  by (simp add: queryUpstream_def getUpstream_def handleResponse_def SetAnswer_def
      NewForward_def upstream_entry_def)

section \<open>Properties of the fallback stage\<close>

lemma wait_loop_no_cancel:
  "done_at s = None \<Longrightarrow> length vals \<le> 2 \<Longrightarrow>
   wait_loop 0 s vals qCtx =
     (case List.find (\<lambda>v. v \<noteq> None) vals of
        Some v \<Rightarrow> (None, SetResponse v qCtx)
      | None \<Rightarrow> (Some ErrFailed, qCtx))"
  apply (cases vals; simp)
  subgoal for v vs
    apply (cases v; simp)
    apply (cases vs; simp)
    subgoal for w ws by (cases w; simp)
    done
  done

lemma length_respChan_values: "length (respChan_values f s qCtx) \<le> 2"
  by (simp add: respChan_values_def split: prod.splits option.splits)

lemma wait_loop_outcomes:
  assumes "length vals \<le> 2"
  shows "(\<exists>r. Some r \<in> set vals \<and> wait_loop 0 s vals qCtx = (None, SetResponse (Some r) qCtx)) \<or>
         (done_at s \<notin> {Some 0, Some 1} \<and> (\<forall>v \<in> set vals. v = None) \<and>
            wait_loop 0 s vals qCtx = (Some ErrFailed, qCtx)) \<or>
         (done_at s \<in> {Some 0, Some 1} \<and> wait_loop 0 s vals qCtx = (Some (cause s), qCtx))"
proof -
  consider "done_at s = Some 0" | "done_at s = Some 1" | "done_at s \<notin> {Some 0, Some 1}"
    by blast
  then show ?thesis
  proof cases
    case 1
    then show ?thesis by simp
  next
    case 2
    then show ?thesis
      by (cases vals; simp) (rename_tac v vs, case_tac v; auto)
  next
    case 3
    then have d: "done_at s \<noteq> Some 0" "done_at s \<noteq> Some 1" "done_at s \<noteq> Some (Suc 0)" by auto
    show ?thesis
    proof (cases vals)
      case Nil
      with d 3 show ?thesis by simp
    next
      case (Cons v vs)
      note c1 = Cons
      show ?thesis
      proof (cases v)
        case (Some r)
        with c1 d show ?thesis by auto
      next
        case None
        note n1 = None
        show ?thesis
        proof (cases vs)
          case Nil
          with c1 n1 d 3 show ?thesis by simp
        next
          case (Cons w ws)
          with assms c1 have ws: "ws = []" by simp
          show ?thesis
            using c1 n1 Cons ws d 3 by (cases w) auto
        qed
      qed
    qed
  qed
qed

lemma primary_goroutine_cases:
  "primary_goroutine f qCtx =
     (if usable (primary f qCtx) then (primDone, R (snd (primary f qCtx))) else (primFailed, None))"
  by (auto simp: primary_goroutine_def usable_def split: prod.splits)

lemma secondary_goroutine_cases:
  "secondary_goroutine f s sig qCtx =
     (if \<not> alwaysStandby f \<and> \<not> timer_first s \<and> sig = primDone then None
      else if usable (secondary f qCtx) then Some (R (snd (secondary f qCtx)))
      else Some None)"
  by (cases sig) (auto simp: secondary_goroutine_def first_select_def usable_def split: prod.splits)

lemma wait_loop_cancel_0: "done_at s = Some 0 \<Longrightarrow> wait_loop 0 s vals qCtx = (Some (cause s), qCtx)"
  by simp

lemma doFallback_no_cancel:
  "done_at s = None \<Longrightarrow>
   doFallback f s qCtx =
     (case List.find (\<lambda>v. v \<noteq> None) (respChan_values f s qCtx) of
        Some v \<Rightarrow> (None, SetResponse v qCtx)
      | None \<Rightarrow> (Some ErrFailed, qCtx))"
  unfolding doFallback_def
  by (rule wait_loop_no_cancel) (simp_all add: length_respChan_values)

lemma find_respChan_values_None:
  "List.find (\<lambda>v. v \<noteq> None) (respChan_values f s qCtx) = None \<longleftrightarrow>
   \<not> usable (primary f qCtx) \<and> \<not> usable (secondary f qCtx)"
  by (auto simp: respChan_values_def primary_goroutine_cases secondary_goroutine_cases usable_def)

lemma find_respChan_values_Some:
  "List.find (\<lambda>v. v \<noteq> None) (respChan_values f s qCtx) = Some v \<Longrightarrow>
   v \<noteq> None \<and>
   (usable (primary f qCtx) \<and> v = R (snd (primary f qCtx)) \<or>
    usable (secondary f qCtx) \<and> v = R (snd (secondary f qCtx)))"
  by (auto simp: respChan_values_def primary_goroutine_cases secondary_goroutine_cases usable_def
      split: if_splits) metis+

lemma wait_loop_exact:
  assumes "length vals \<le> 2"
  shows "wait_loop 0 s vals qCtx =
     (if done_at s = Some 0 then (Some (cause s), qCtx)
      else if done_at s = Some 1 then
        (case vals of
           Some r # vs \<Rightarrow> (None, SetResponse (Some r) qCtx)
         | _ \<Rightarrow> (Some (cause s), qCtx))
      else
        (case List.find (\<lambda>v. v \<noteq> None) vals of
           Some v \<Rightarrow> (None, SetResponse v qCtx)
         | None \<Rightarrow> (Some ErrFailed, qCtx)))"
proof -
  consider "done_at s = Some 0" | "done_at s = Some 1" | "done_at s \<notin> {Some 0, Some 1}"
    by blast
  then show ?thesis
  proof cases
    case 1
    then show ?thesis by simp
  next
    case 2
    then show ?thesis
      by (cases vals; simp) (rename_tac v vs, case_tac v; simp)
  next
    case 3
    then have d: "done_at s \<noteq> Some 0" "done_at s \<noteq> Some 1" "done_at s \<noteq> Some (Suc 0)" by auto
    show ?thesis
    proof (cases vals)
      case Nil
      with d show ?thesis by simp
    next
      case (Cons v vs)
      note c1 = Cons
      show ?thesis
      proof (cases v)
        case (Some r)
        with c1 d show ?thesis by simp
      next
        case None
        note n1 = None
        show ?thesis
        proof (cases vs)
          case Nil
          with c1 n1 d show ?thesis by simp
        next
          case (Cons w ws)
          with assms c1 have ws: "ws = []" by simp
          show ?thesis
            using c1 n1 Cons ws d by (cases w) simp_all
        qed
      qed
    qed
  qed
qed

lemma respChan_values_exact:
  "respChan_values f s qCtx =
     (let pv = (if usable (primary f qCtx) then R (snd (primary f qCtx)) else None);
          sv = (if usable (secondary f qCtx) then R (snd (secondary f qCtx)) else None)
      in if \<not> alwaysStandby f \<and> \<not> timer_first s \<and> usable (primary f qCtx) then [pv]
         else if sec_first s then [sv, pv] else [pv, sv])"
  by (auto simp: respChan_values_def primary_goroutine_cases secondary_goroutine_cases Let_def)

lemma fallback_Exec_exact:
  "fallback_Exec f s qCtx =
     (if done_at s = Some 0 then (Some (cause s), qCtx)
      else if done_at s = Some 1 then
        (case respChan_values f s qCtx of
           Some r # vs \<Rightarrow> (None, SetResponse (Some r) qCtx)
         | _ \<Rightarrow> (Some (cause s), qCtx))
      else
        (case List.find (\<lambda>v. v \<noteq> None) (respChan_values f s qCtx) of
           Some v \<Rightarrow> (None, SetResponse v qCtx)
         | None \<Rightarrow> (Some ErrFailed, qCtx)))"
  unfolding fallback_Exec_def doFallback_def
  by (rule wait_loop_exact) (rule length_respChan_values)

text \<open>
  Claim C4, as amended. \<^verbatim>\<open>fallback.Exec\<close> delivers exactly one outcome per request:
  it sets a response that a branch has sent to \<^verbatim>\<open>respChan\<close> and returns nil, or it
  sets no response and returns \<^verbatim>\<open>ErrFailed\<close> ("no valid response from both primary
  and secondary"), or, only when the outer context is done, it sets no response and
  returns the context's cause. Which one is fixed by the schedule. If the outer context
  is done at the first wait, \<^verbatim>\<open>Exec\<close> sets no response and returns the cause. If it
  is done at the second wait, \<^verbatim>\<open>Exec\<close> sets the first value that arrived if that
  value is non-nil, and otherwise sets no response and returns the cause. If it is not
  done at either wait, \<^verbatim>\<open>Exec\<close> sets the first non-nil value that reaches
  \<^verbatim>\<open>respChan\<close> and returns nil, and if no value is non-nil it sets no response and
  returns \<^verbatim>\<open>ErrFailed\<close>. The values on \<^verbatim>\<open>respChan\<close> are those of the branches: a
  branch sends its response if its stage returned no error and nil otherwise, the
  secondary branch sends nothing when it is skipped, and the schedule fixes the order.
  So, while the context is not done, the response set is that of a branch with a usable
  result, and \<^verbatim>\<open>ErrFailed\<close> is returned exactly when neither branch has one.
\<close>

theorem fallback_Exec_one_outcome:
  "((\<exists>r. Some r \<in> set (respChan_values f s qCtx) \<and>
        fallback_Exec f s qCtx = (None, SetResponse (Some r) qCtx)) \<or>
    fallback_Exec f s qCtx = (Some ErrFailed, qCtx) \<or>
    (done_at s \<noteq> None \<and> fallback_Exec f s qCtx = (Some (cause s), qCtx))) \<and>
   (done_at s = None \<longrightarrow>
      fallback_Exec f s qCtx =
        (case List.find (\<lambda>v. v \<noteq> None) (respChan_values f s qCtx) of
           Some v \<Rightarrow> (None, SetResponse v qCtx)
         | None \<Rightarrow> (Some ErrFailed, qCtx))) \<and>
   (done_at s = None \<and> \<not> usable (primary f qCtx) \<and> \<not> usable (secondary f qCtx) \<longrightarrow>
      fallback_Exec f s qCtx = (Some ErrFailed, qCtx)) \<and>
   (done_at s = None \<and> (usable (primary f qCtx) \<or> usable (secondary f qCtx)) \<longrightarrow>
      (\<exists>r. fallback_Exec f s qCtx = (None, SetResponse (Some r) qCtx) \<and>
           (usable (primary f qCtx) \<and> Some r = R (snd (primary f qCtx)) \<or>
            usable (secondary f qCtx) \<and> Some r = R (snd (secondary f qCtx))))) \<and>
   (done_at s = Some 0 \<longrightarrow> fallback_Exec f s qCtx = (Some (cause s), qCtx)) \<and>
   (done_at s = Some 1 \<longrightarrow>
      fallback_Exec f s qCtx =
        (case respChan_values f s qCtx of
           Some r # vs \<Rightarrow> (None, SetResponse (Some r) qCtx)
         | _ \<Rightarrow> (Some (cause s), qCtx))) \<and>
   fallback_Exec f s qCtx =
     (if done_at s = Some 0 then (Some (cause s), qCtx)
      else if done_at s = Some 1 then
        (case respChan_values f s qCtx of
           Some r # vs \<Rightarrow> (None, SetResponse (Some r) qCtx)
         | _ \<Rightarrow> (Some (cause s), qCtx))
      else
        (case List.find (\<lambda>v. v \<noteq> None) (respChan_values f s qCtx) of
           Some v \<Rightarrow> (None, SetResponse v qCtx)
         | None \<Rightarrow> (Some ErrFailed, qCtx))) \<and>
   respChan_values f s qCtx =
     (let pv = (if usable (primary f qCtx) then R (snd (primary f qCtx)) else None);
          sv = (if usable (secondary f qCtx) then R (snd (secondary f qCtx)) else None)
      in if \<not> alwaysStandby f \<and> \<not> timer_first s \<and> usable (primary f qCtx) then [pv]
         else if sec_first s then [sv, pv] else [pv, sv])"
proof (intro conjI impI)
  show "(\<exists>r. Some r \<in> set (respChan_values f s qCtx) \<and>
        fallback_Exec f s qCtx = (None, SetResponse (Some r) qCtx)) \<or>
    fallback_Exec f s qCtx = (Some ErrFailed, qCtx) \<or>
    (done_at s \<noteq> None \<and> fallback_Exec f s qCtx = (Some (cause s), qCtx))"
    using wait_loop_outcomes [OF length_respChan_values, of f s qCtx s qCtx]
    unfolding fallback_Exec_def doFallback_def by auto
next
  assume "done_at s = None"
  then show "fallback_Exec f s qCtx =
      (case List.find (\<lambda>v. v \<noteq> None) (respChan_values f s qCtx) of
         Some v \<Rightarrow> (None, SetResponse v qCtx)
       | None \<Rightarrow> (Some ErrFailed, qCtx))"
    by (simp add: fallback_Exec_def doFallback_no_cancel)
next
  assume "done_at s = None \<and> \<not> usable (primary f qCtx) \<and> \<not> usable (secondary f qCtx)"
  then show "fallback_Exec f s qCtx = (Some ErrFailed, qCtx)"
    using find_respChan_values_None [of f s qCtx]
    by (simp add: fallback_Exec_def doFallback_no_cancel)
next
  assume a: "done_at s = None \<and> (usable (primary f qCtx) \<or> usable (secondary f qCtx))"
  then have "List.find (\<lambda>v. v \<noteq> None) (respChan_values f s qCtx) \<noteq> None"
    using find_respChan_values_None [of f s qCtx] by blast
  then obtain v where v: "List.find (\<lambda>v. v \<noteq> None) (respChan_values f s qCtx) = Some v"
    by blast
  from find_respChan_values_Some [OF v] obtain r where r: "v = Some r"
    and "usable (primary f qCtx) \<and> Some r = R (snd (primary f qCtx)) \<or>
         usable (secondary f qCtx) \<and> Some r = R (snd (secondary f qCtx))"
    by auto
  moreover from a v r have "fallback_Exec f s qCtx = (None, SetResponse (Some r) qCtx)"
    by (simp add: fallback_Exec_def doFallback_no_cancel)
  ultimately show "\<exists>r. fallback_Exec f s qCtx = (None, SetResponse (Some r) qCtx) \<and>
           (usable (primary f qCtx) \<and> Some r = R (snd (primary f qCtx)) \<or>
            usable (secondary f qCtx) \<and> Some r = R (snd (secondary f qCtx)))"
    by blast
next
  assume "done_at s = Some 0"
  then show "fallback_Exec f s qCtx = (Some (cause s), qCtx)"
    by (simp add: fallback_Exec_def doFallback_def)
next
  assume "done_at s = Some 1"
  then show "fallback_Exec f s qCtx =
      (case respChan_values f s qCtx of
         Some r # vs \<Rightarrow> (None, SetResponse (Some r) qCtx)
       | _ \<Rightarrow> (Some (cause s), qCtx))"
    by (simp add: fallback_Exec_exact)
next
  show "fallback_Exec f s qCtx =
     (if done_at s = Some 0 then (Some (cause s), qCtx)
      else if done_at s = Some 1 then
        (case respChan_values f s qCtx of
           Some r # vs \<Rightarrow> (None, SetResponse (Some r) qCtx)
         | _ \<Rightarrow> (Some (cause s), qCtx))
      else
        (case List.find (\<lambda>v. v \<noteq> None) (respChan_values f s qCtx) of
           Some v \<Rightarrow> (None, SetResponse v qCtx)
         | None \<Rightarrow> (Some ErrFailed, qCtx)))"
    by (rule fallback_Exec_exact)
next
  show "respChan_values f s qCtx =
     (let pv = (if usable (primary f qCtx) then R (snd (primary f qCtx)) else None);
          sv = (if usable (secondary f qCtx) then R (snd (secondary f qCtx)) else None)
      in if \<not> alwaysStandby f \<and> \<not> timer_first s \<and> usable (primary f qCtx) then [pv]
         else if sec_first s then [sv, pv] else [pv, sv])"
    by (rule respChan_values_exact)
qed

theorem fallback_Exec_one_outcome_witness:
  "fallback_Exec
     \<lparr>primary = failing_stage ''refused'', secondary = answering_stage example_response,
      fastFallbackDuration = 500000000, alwaysStandby = False\<rparr>
     \<lparr>timer_first = False, sec_first = True, done_at = None, cause = ctx_Err ''''\<rparr>
     example_ctx
   = (None, SetResponse (Some example_response) example_ctx) \<and>
   fallback_Exec
     \<lparr>primary = failing_stage ''refused'', secondary = failing_stage ''timeout'',
      fastFallbackDuration = 500000000, alwaysStandby = True\<rparr>
     \<lparr>timer_first = False, sec_first = False, done_at = None, cause = ctx_Err ''''\<rparr>
     example_ctx
   = (Some ErrFailed, example_ctx) \<and>
   fallback_Exec
     \<lparr>primary = failing_stage ''refused'', secondary = answering_stage example_response,
      fastFallbackDuration = 500000000, alwaysStandby = False\<rparr>
     \<lparr>timer_first = False, sec_first = False, done_at = Some 0,
      cause = ctx_Err ''context deadline exceeded''\<rparr>
     example_ctx
   = (Some (ctx_Err ''context deadline exceeded''), example_ctx) \<and>
   fallback_Exec
     \<lparr>primary = failing_stage ''refused'', secondary = answering_stage example_response,
      fastFallbackDuration = 500000000, alwaysStandby = False\<rparr>
     \<lparr>timer_first = False, sec_first = False, done_at = Some 1,
      cause = ctx_Err ''context deadline exceeded''\<rparr>
     example_ctx
   = (Some (ctx_Err ''context deadline exceeded''), example_ctx) \<and>
   fallback_Exec
     \<lparr>primary = answering_stage example_response, secondary = failing_stage ''timeout'',
      fastFallbackDuration = 500000000, alwaysStandby = False\<rparr>
     \<lparr>timer_first = False, sec_first = False, done_at = Some 1,
      cause = ctx_Err ''context deadline exceeded''\<rparr>
     example_ctx
   = (None, SetResponse (Some example_response) example_ctx)"
  using fallback_Exec_one_outcome [where
      f = "\<lparr>primary = failing_stage ''refused'', secondary = answering_stage example_response,
            fastFallbackDuration = 500000000, alwaysStandby = False\<rparr>"
      and s = "\<lparr>timer_first = False, sec_first = False, done_at = Some 1,
            cause = ctx_Err ''context deadline exceeded''\<rparr>"
      and qCtx = example_ctx]
    fallback_Exec_one_outcome [where
      f = "\<lparr>primary = answering_stage example_response, secondary = failing_stage ''timeout'',
            fastFallbackDuration = 500000000, alwaysStandby = False\<rparr>"
      and s = "\<lparr>timer_first = False, sec_first = False, done_at = Some 1,
            cause = ctx_Err ''context deadline exceeded''\<rparr>"
      and qCtx = example_ctx]
    fallback_Exec_one_outcome [where
      f = "\<lparr>primary = failing_stage ''refused'', secondary = answering_stage example_response,
            fastFallbackDuration = 500000000, alwaysStandby = False\<rparr>"
      and s = "\<lparr>timer_first = False, sec_first = True, done_at = None, cause = ctx_Err ''''\<rparr>"
      and qCtx = example_ctx]
    fallback_Exec_one_outcome [where
      f = "\<lparr>primary = failing_stage ''refused'', secondary = failing_stage ''timeout'',
            fastFallbackDuration = 500000000, alwaysStandby = True\<rparr>"
      and s = "\<lparr>timer_first = False, sec_first = False, done_at = None, cause = ctx_Err ''''\<rparr>"
      and qCtx = example_ctx]
    fallback_Exec_one_outcome [where
      f = "\<lparr>primary = failing_stage ''refused'', secondary = answering_stage example_response,
            fastFallbackDuration = 500000000, alwaysStandby = False\<rparr>"
      and s = "\<lparr>timer_first = False, sec_first = False, done_at = Some 0,
            cause = ctx_Err ''context deadline exceeded''\<rparr>"
      and qCtx = example_ctx]
  by (simp add: usable_def failing_stage_def answering_stage_def SetResponse_def
      respChan_values_def primary_goroutine_def secondary_goroutine_def first_select_def)

text \<open>
  Claim C4 as stated leaves out the outer context: here the primary branch produces a
  non-nil response, which reaches \<^verbatim>\<open>respChan\<close>, and \<^verbatim>\<open>Exec\<close> still sets no
  response and returns an error that is not \<^verbatim>\<open>ErrFailed\<close>, because the first
  \<^verbatim>\<open>select\<close> of the loop takes \<^verbatim>\<open><-ctx.Done()\<close>.
\<close>

theorem fallback_Exec_cancel_counterexample:
  "respChan_values
     \<lparr>primary = answering_stage example_response, secondary = failing_stage ''timeout'',
      fastFallbackDuration = 500000000, alwaysStandby = False\<rparr>
     \<lparr>timer_first = False, sec_first = False, done_at = Some 0,
      cause = ctx_Err ''context deadline exceeded''\<rparr>
     example_ctx
   = [Some example_response] \<and>
   fallback_Exec
     \<lparr>primary = answering_stage example_response, secondary = failing_stage ''timeout'',
      fastFallbackDuration = 500000000, alwaysStandby = False\<rparr>
     \<lparr>timer_first = False, sec_first = False, done_at = Some 0,
      cause = ctx_Err ''context deadline exceeded''\<rparr>
     example_ctx
   = (Some (ctx_Err ''context deadline exceeded''), example_ctx) \<and>
   ctx_Err ''context deadline exceeded'' \<noteq> ErrFailed \<and>
   R example_ctx = None"
  by (simp add: fallback_Exec_def doFallback_def respChan_values_def primary_goroutine_def
      secondary_goroutine_def first_select_def answering_stage_def failing_stage_def
      SetResponse_def ErrFailed_def example_ctx_def)

text \<open>
  Claim C5. When always-standby is off and the primary branch completes with a usable
  result (no error, non-nil response) before the threshold elapses, the secondary
  stage's \<^verbatim>\<open>Exec\<close> is not invoked: the primary stage is the only one called, its
  response is the only value sent to \<^verbatim>\<open>respChan\<close>, and it is the response
  \<^verbatim>\<open>Exec\<close> sets unless the outer context is done first.
\<close>

theorem secondary_not_invoked:
  assumes "\<not> alwaysStandby f" and "usable (primary f qCtx)" and "\<not> timer_first s"
  shows "invoked f s qCtx = [Primary] \<and>
         respChan_values f s qCtx = [R (snd (primary f qCtx))] \<and>
         (done_at s = None \<longrightarrow>
            fallback_Exec f s qCtx = (None, SetResponse (R (snd (primary f qCtx))) qCtx))"
proof -
  from assms have sec: "secondary_goroutine f s (fst (primary_goroutine f qCtx)) qCtx = None"
    by (simp add: primary_goroutine_cases secondary_goroutine_cases)
  then have inv: "invoked f s qCtx = [Primary]"
    by (simp add: invoked_def)
  from sec assms(2) have vals: "respChan_values f s qCtx = [R (snd (primary f qCtx))]"
    by (simp add: respChan_values_def primary_goroutine_cases split: prod.splits)
  from assms(2) have "R (snd (primary f qCtx)) \<noteq> None"
    by (simp add: usable_def)
  with vals have "fallback_Exec f s qCtx = (None, SetResponse (R (snd (primary f qCtx))) qCtx)"
    if "done_at s = None"
    using that by (auto simp: fallback_Exec_def doFallback_no_cancel)
  with inv vals show ?thesis by blast
qed

theorem secondary_not_invoked_witness:
  "invoked
     \<lparr>primary = answering_stage example_response, secondary = answering_stage example_query,
      fastFallbackDuration = 500000000, alwaysStandby = False\<rparr>
     \<lparr>timer_first = False, sec_first = False, done_at = None, cause = ctx_Err ''''\<rparr>
     example_ctx
   = [Primary] \<and>
   fallback_Exec
     \<lparr>primary = answering_stage example_response, secondary = answering_stage example_query,
      fastFallbackDuration = 500000000, alwaysStandby = False\<rparr>
     \<lparr>timer_first = False, sec_first = False, done_at = None, cause = ctx_Err ''''\<rparr>
     example_ctx
   = (None, SetResponse (Some example_response) example_ctx)"
  using secondary_not_invoked [where
      f = "\<lparr>primary = answering_stage example_response, secondary = answering_stage example_query,
            fastFallbackDuration = 500000000, alwaysStandby = False\<rparr>"
      and s = "\<lparr>timer_first = False, sec_first = False, done_at = None, cause = ctx_Err ''''\<rparr>"
      and qCtx = example_ctx]
  by (simp add: usable_def answering_stage_def SetResponse_def)

lemma secondary_invoked_otherwise:
  "alwaysStandby f \<or> \<not> usable (primary f qCtx) \<or> timer_first s \<Longrightarrow>
   invoked f s qCtx = [Primary, Secondary]"
  by (auto simp: invoked_def primary_goroutine_cases secondary_goroutine_cases)

section \<open>Properties of the redirect stage\<close>

lemma restore_names_map:
  "restore_names target org qs = map (\<lambda>y. if Name y = target then y\<lparr>Name := org\<rparr> else y) qs"
  by (induction qs) auto

lemma restore_names_all:
  "\<forall>y \<in> set qs. Name y = target \<Longrightarrow>
   restore_names target org qs = map (\<lambda>y. y\<lparr>Name := org\<rparr>) qs"
  by (induction qs) auto

lemma restore_names_frame:
  "length (restore_names target org qs) = length qs \<and>
   map Qtype (restore_names target org qs) = map Qtype qs \<and>
   map Qclass (restore_names target org qs) = map Qclass qs"
  by (induction qs) auto

text \<open>
  Claim C7, as amended. When the redirect stage rewrites the question name (one question
  of class INET whose name the memo table or the matcher maps to a target) and \<open>next\<close>
  leaves a response on the context: every question entry of the response whose name is
  exactly the rewritten name gets the original name, and every other entry stays as it
  is, so a response whose question entries all carry the rewritten name has them all
  restored; the answer section of the response is one new CNAME record with the
  original name as owner and the rewritten name as target, followed by the answers
  \<open>next\<close> produced; and, provided the request still has a question when \<open>next\<close>
  returns, the first question of the request carries the original name again, so the
  request is as it was if \<open>next\<close> did not change it.
\<close>

theorem Redirect_Exec_round_trip:
  assumes "Question (Q qCtx) = [qu]" and "Qclass qu = ClassINET"
    and "getCache rd (Name qu) = Some target \<or>
         getCache rd (Name qu) = None \<and> m_Match rd (Name qu) = Some target"
    and "next (qCtx\<lparr>Q := (Q qCtx)\<lparr>Question := [qu\<lparr>Name := target\<rparr>]\<rparr>\<rparr>) = (err, qCtx')"
    and "R qCtx' = Some r"
    and "Question (Q qCtx') = x # xs"
  shows "Redirect_Exec rd qCtx next =
           Inr (err,
                (if getCache rd (Name qu) = None then setCache rd (Name qu) target else rd),
                qCtx'\<lparr>R := Some (r\<lparr>
                         Question := restore_names target (Name qu) (Question r),
                         Answer := CNAME \<lparr>Hdr_Name = Name qu, Rrtype = TypeCNAME,
                                          Class = ClassINET, Ttl = 1\<rparr> target # Answer r\<rparr>),
                       Q := (Q qCtx')\<lparr>Question := x\<lparr>Name := Name qu\<rparr> # xs\<rparr>\<rparr>) \<and>
         restore_names target (Name qu) (Question r) =
           map (\<lambda>y. if Name y = target then y\<lparr>Name := Name qu\<rparr> else y) (Question r) \<and>
         ((\<forall>y \<in> set (Question r). Name y = target) \<longrightarrow>
            restore_names target (Name qu) (Question r) =
              map (\<lambda>y. y\<lparr>Name := Name qu\<rparr>) (Question r)) \<and>
         (Q qCtx' = (Q qCtx)\<lparr>Question := [qu\<lparr>Name := target\<rparr>]\<rparr> \<longrightarrow>
            (Q qCtx')\<lparr>Question := x\<lparr>Name := Name qu\<rparr> # xs\<rparr> = Q qCtx)"
proof (intro conjI impI)
  show "restore_names target (Name qu) (Question r) =
      map (\<lambda>y. if Name y = target then y\<lparr>Name := Name qu\<rparr> else y) (Question r)"
    by (rule restore_names_map)
next
  show "Redirect_Exec rd qCtx next =
           Inr (err,
                (if getCache rd (Name qu) = None then setCache rd (Name qu) target else rd),
                qCtx'\<lparr>R := Some (r\<lparr>
                         Question := restore_names target (Name qu) (Question r),
                         Answer := CNAME \<lparr>Hdr_Name = Name qu, Rrtype = TypeCNAME,
                                          Class = ClassINET, Ttl = 1\<rparr> target # Answer r\<rparr>),
                       Q := (Q qCtx')\<lparr>Question := x\<lparr>Name := Name qu\<rparr> # xs\<rparr>\<rparr>)"
    using assms by (auto simp: Redirect_Exec_def Let_def)
next
  assume "\<forall>y \<in> set (Question r). Name y = target"
  then show "restore_names target (Name qu) (Question r) =
      map (\<lambda>y. y\<lparr>Name := Name qu\<rparr>) (Question r)"
    by (rule restore_names_all)
next
  assume a: "Q qCtx' = (Q qCtx)\<lparr>Question := [qu\<lparr>Name := target\<rparr>]\<rparr>"
  with assms(6) have "x = qu\<lparr>Name := target\<rparr>" "xs = []" by simp_all
  with a assms(1) show "(Q qCtx')\<lparr>Question := x\<lparr>Name := Name qu\<rparr> # xs\<rparr> = Q qCtx"
    by simp
qed

theorem Redirect_Exec_round_trip_witness:
  "Redirect_Exec
     \<lparr>m_Match = (\<lambda>n. if n = ''example.com.'' then Some ''example.net.'' else None),
      cache = Map.empty\<rparr>
     example_ctx
     (echo_stage [OtherRR \<lparr>Hdr_Name = ''example.net.'', Rrtype = 1, Class = 1, Ttl = 60\<rparr>
                    [192, 0, 2, 7]])
   = Inr (None,
          \<lparr>m_Match = (\<lambda>n. if n = ''example.com.'' then Some ''example.net.'' else None),
           cache = [''example.com.'' \<mapsto> ''example.net.'']\<rparr>,
          \<lparr>Q = example_query,
           R = Some \<lparr>MsgHdr_Id = 7,
                     Question = [\<lparr>Name = ''example.com.'', Qtype = 1, Qclass = 1\<rparr>],
                     Answer = [CNAME \<lparr>Hdr_Name = ''example.com.'', Rrtype = 5, Class = 1, Ttl = 1\<rparr>
                                 ''example.net.'',
                               OtherRR \<lparr>Hdr_Name = ''example.net.'', Rrtype = 1, Class = 1, Ttl = 60\<rparr>
                                 [192, 0, 2, 7]]\<rparr>,
           marks = {}\<rparr>)"
proof -
  let ?rd = "\<lparr>m_Match = (\<lambda>n. if n = ''example.com.'' then Some ''example.net.'' else None),
      cache = Map.empty\<rparr>"
  let ?qu = "\<lparr>Name = ''example.com.'', Qtype = 1, Qclass = 1\<rparr>"
  let ?rrs = "[OtherRR \<lparr>Hdr_Name = ''example.net.'', Rrtype = 1, Class = 1, Ttl = 60\<rparr> [192, 0, 2, 7]]"
  let ?q1 = "\<lparr>MsgHdr_Id = 7, Question = [\<lparr>Name = ''example.net.'', Qtype = 1, Qclass = 1\<rparr>], Answer = []\<rparr>"
  let ?r = "\<lparr>MsgHdr_Id = 7, Question = [\<lparr>Name = ''example.net.'', Qtype = 1, Qclass = 1\<rparr>], Answer = ?rrs\<rparr>"
  let ?c1 = "\<lparr>Q = ?q1, R = Some ?r, marks = {}\<rparr>"
  have h1: "Question (Q example_ctx) = [?qu]"
    by (simp add: example_ctx_def example_query_def)
  have h2: "Qclass ?qu = ClassINET"
    by (simp add: ClassINET_def)
  have h3: "getCache ?rd (Name ?qu) = Some ''example.net.'' \<or>
      getCache ?rd (Name ?qu) = None \<and> m_Match ?rd (Name ?qu) = Some ''example.net.''"
    by (simp add: getCache_def)
  have h4: "echo_stage ?rrs (example_ctx\<lparr>Q := (Q example_ctx)\<lparr>Question := [?qu\<lparr>Name := ''example.net.''\<rparr>]\<rparr>\<rparr>)
      = (None, ?c1)"
    by (simp add: echo_stage_def SetResponse_def example_ctx_def example_query_def)
  have h5: "R ?c1 = Some ?r"
    by simp
  have h6: "Question (Q ?c1) = \<lparr>Name = ''example.net.'', Qtype = 1, Qclass = 1\<rparr> # []"
    by simp
  from Redirect_Exec_round_trip [where qCtx = example_ctx and qu = ?qu and rd = ?rd
      and target = "''example.net.''" and ?next = "echo_stage ?rrs" and err = None
      and qCtx' = ?c1 and r = ?r, OF h1 h2 h3 h4 h5 h6]
  show ?thesis
    by (simp add: getCache_def setCache_def TypeCNAME_def ClassINET_def example_query_def)
qed

text \<open>
  Claim C7 as stated fails on two inputs that meet its conditions. The stage rewrites
  \<^verbatim>\<open>example.com.\<close> to \<^verbatim>\<open>example.net.\<close>, and \<open>next\<close> produces a response. In the
  first, the response names its question \<^verbatim>\<open>EXAMPLE.NET.\<close>: the comparison with the
  rewritten name is exact, and the response leaves the stage with that name, not with
  the original one. In the second, \<open>next\<close> empties the question section of the
  request: the deferred restore indexes the first question, and the call does not
  return.
\<close>

theorem Redirect_Exec_restore_counterexample:
  "Redirect_Exec
     \<lparr>m_Match = (\<lambda>n. if n = ''example.com.'' then Some ''example.net.'' else None),
      cache = Map.empty\<rparr>
     example_ctx
     (answering_stage
        \<lparr>MsgHdr_Id = 7, Question = [\<lparr>Name = ''EXAMPLE.NET.'', Qtype = 1, Qclass = 1\<rparr>],
         Answer = []\<rparr>)
   = Inr (None,
          \<lparr>m_Match = (\<lambda>n. if n = ''example.com.'' then Some ''example.net.'' else None),
           cache = [''example.com.'' \<mapsto> ''example.net.'']\<rparr>,
          \<lparr>Q = example_query,
           R = Some \<lparr>MsgHdr_Id = 7,
                     Question = [\<lparr>Name = ''EXAMPLE.NET.'', Qtype = 1, Qclass = 1\<rparr>],
                     Answer = [CNAME \<lparr>Hdr_Name = ''example.com.'', Rrtype = 5, Class = 1, Ttl = 1\<rparr>
                                 ''example.net.'']\<rparr>,
           marks = {}\<rparr>) \<and>
   ''EXAMPLE.NET.'' \<noteq> ''example.com.'' \<and>
   Redirect_Exec
     \<lparr>m_Match = (\<lambda>n. if n = ''example.com.'' then Some ''example.net.'' else None),
      cache = Map.empty\<rparr>
     example_ctx
     (\<lambda>qCtx. (None, qCtx\<lparr>Q := (Q qCtx)\<lparr>Question := []\<rparr>, R := Some example_response\<rparr>))
   = Inl index_out_of_range"
  by (simp add: Redirect_Exec_def getCache_def setCache_def answering_stage_def SetResponse_def
      example_ctx_def example_query_def ClassINET_def TypeCNAME_def Let_def)

section \<open>Properties of the cache stage\<close>

lemma getRespFromCache_fresh:
  "b k = Some v \<Longrightarrow> fresh env v \<Longrightarrow> getRespFromCache env k b lazy t = (Some (resp v), False)"
  by (simp add: getRespFromCache_def)

text \<open>
  Claim C6. For a request whose query yields a cache key (a non-empty one) and for which
  the table holds a fresh entry under that key, \<^verbatim>\<open>Cache.Exec\<close> sets on the query
  context the cached snapshot with its transaction id replaced by the request's id,
  and nothing else changed, and hands that context to the rest of the chain; what
  \<^verbatim>\<open>Exec\<close> returns is what the chain returns from there. The hit counter and the
  query counter each go up by one, no lazy update is started, and the table stays as it
  is unless the chain replaces the response.
\<close>

theorem Cache_Exec_fresh_hit:
  assumes "msgKeyOf env (Q qCtx) \<noteq> []"
    and "backend c (msgKeyOf env (Q qCtx)) = Some v"
    and "fresh env v"
  shows "fst (Cache_Exec env c qCtx next replaced) =
           fst (next (SetResponse (Some ((resp v)\<lparr>MsgHdr_Id := MsgHdr_Id (Q qCtx)\<rparr>)) qCtx)) \<and>
         snd (snd (Cache_Exec env c qCtx next replaced)) =
           snd (next (SetResponse (Some ((resp v)\<lparr>MsgHdr_Id := MsgHdr_Id (Q qCtx)\<rparr>)) qCtx)) \<and>
         R (SetResponse (Some ((resp v)\<lparr>MsgHdr_Id := MsgHdr_Id (Q qCtx)\<rparr>)) qCtx) =
           Some ((resp v)\<lparr>MsgHdr_Id := MsgHdr_Id (Q qCtx)\<rparr>) \<and>
         hitTotal (fst (snd (Cache_Exec env c qCtx next replaced))) = hitTotal c + 1 \<and>
         queryTotal (fst (snd (Cache_Exec env c qCtx next replaced))) = queryTotal c + 1 \<and>
         lazyHitTotal (fst (snd (Cache_Exec env c qCtx next replaced))) = lazyHitTotal c \<and>
         lazy_updates (fst (snd (Cache_Exec env c qCtx next replaced))) = lazy_updates c \<and>
         (\<not> replaced \<longrightarrow> backend (fst (snd (Cache_Exec env c qCtx next replaced))) = backend c)"
proof -
  let ?served = "(resp v)\<lparr>MsgHdr_Id := MsgHdr_Id (Q qCtx)\<rparr>"
  obtain err qCtx' where n: "next (SetResponse (Some ?served) qCtx) = (err, qCtx')"
    by (cases "next (SetResponse (Some ?served) qCtx)")
  let ?c1 = "c\<lparr>queryTotal := queryTotal c + 1, hitTotal := hitTotal c + 1\<rparr>"
  have look: "getRespFromCache env (msgKeyOf env (Q qCtx)) (backend c) lazy t = (Some (resp v), False)"
    for lazy t
    using assms(2,3) by (rule getRespFromCache_fresh)
  have run: "Cache_Exec env c qCtx next replaced =
      (err,
       (case R qCtx' of
          None \<Rightarrow> ?c1
        | Some r \<Rightarrow>
            if replaced
            then ?c1\<lparr>backend := saveRespToCache env (msgKeyOf env (Q qCtx)) r (backend c) (LazyCacheTTL c),
                     updatedKey := updatedKey c + 1\<rparr>
            else ?c1),
       qCtx')"
    using assms(1) n by (simp add: Cache_Exec_def Let_def look split: option.splits)
  show ?thesis
    unfolding run n by (simp add: SetResponse_def split: option.splits)
qed

theorem Cache_Exec_fresh_hit_witness:
  "Cache_Exec example_env
     \<lparr>LazyCacheTTL = 0,
      backend = [''example.com.'' \<mapsto> \<lparr>resp = example_response\<lparr>MsgHdr_Id := 99\<rparr>, ttl = 30\<rparr>],
      queryTotal = 4, hitTotal = 2, lazyHitTotal = 0, updatedKey = 1, lazy_updates = []\<rparr>
     example_ctx end_of_chain False
   = (None,
      \<lparr>LazyCacheTTL = 0,
       backend = [''example.com.'' \<mapsto> \<lparr>resp = example_response\<lparr>MsgHdr_Id := 99\<rparr>, ttl = 30\<rparr>],
       queryTotal = 5, hitTotal = 3, lazyHitTotal = 0, updatedKey = 1, lazy_updates = []\<rparr>,
      \<lparr>Q = example_query, R = Some example_response, marks = {}\<rparr>)"
proof -
  let ?c = "\<lparr>LazyCacheTTL = 0,
      backend = [''example.com.'' \<mapsto> \<lparr>resp = example_response\<lparr>MsgHdr_Id := 99\<rparr>, ttl = 30\<rparr>],
      queryTotal = 4, hitTotal = 2, lazyHitTotal = 0, updatedKey = 1, lazy_updates = []\<rparr>"
  let ?v = "\<lparr>resp = example_response\<lparr>MsgHdr_Id := 99\<rparr>, ttl = 30\<rparr>"
  have h1: "msgKeyOf example_env (Q example_ctx) \<noteq> []"
    by (simp add: example_env_def example_ctx_def example_query_def)
  have h2: "backend ?c (msgKeyOf example_env (Q example_ctx)) = Some ?v"
    by (simp add: example_env_def example_ctx_def example_query_def)
  have h3: "fresh example_env ?v"
    by (simp add: example_env_def Expired_def)
  from Cache_Exec_fresh_hit [where ?next = end_of_chain and replaced = False, OF h1 h2 h3]
  have "snd (snd (Cache_Exec example_env ?c example_ctx end_of_chain False)) =
      \<lparr>Q = example_query, R = Some example_response, marks = {}\<rparr>"
    and "fst (Cache_Exec example_env ?c example_ctx end_of_chain False) = None"
    and "hitTotal (fst (snd (Cache_Exec example_env ?c example_ctx end_of_chain False))) = 3"
    by (simp_all add: end_of_chain_def SetResponse_def example_ctx_def example_query_def
        example_response_def)
  moreover have "Cache_Exec example_env ?c example_ctx end_of_chain False
      = (None, ?c\<lparr>queryTotal := 5, hitTotal := 3\<rparr>,
         \<lparr>Q = example_query, R = Some example_response, marks = {}\<rparr>)"
    by (simp add: Cache_Exec_def getRespFromCache_def example_env_def example_ctx_def
        example_query_def example_response_def end_of_chain_def SetResponse_def Expired_def
        expiredMsgTtl_def Let_def)
  ultimately show ?thesis by simp
qed

section \<open>Properties of the refresh tasks\<close>

lemma refresh_joined:
  "refreshes_in_flight ''k''
     (foldl refresh_step NewCache_refresh [Lazy_hit ''k'', Begin 0, Lazy_hit ''k'', Begin 1]) = 1"
  by (simp add: refreshes_in_flight_def NewCache_refresh_def doLazyUpdate_launch_def
      LoadOrStore_def Do_begin_def Let_def)

text \<open>
  Claim C2 at a failing input. Two requests hit the same lazily expired key and both call
  \<^verbatim>\<open>doLazyUpdate\<close> before the goroutine of the first has entered \<^verbatim>\<open>sf.Do\<close>. The
  second call copies the registered group while its map is still nil, so the two
  goroutines use groups with maps of their own, neither sees the other's call, and two
  refreshes for the key run at the same time.
\<close>

theorem lazy_update_two_in_flight:
  "refreshes_in_flight ''k''
     (foldl refresh_step NewCache_refresh [Lazy_hit ''k'', Lazy_hit ''k'', Begin 0, Begin 1]) = 2"
  by (simp add: refreshes_in_flight_def NewCache_refresh_def doLazyUpdate_launch_def
      LoadOrStore_def Do_begin_def Let_def)

end
